theory Spec2Isabelle
  imports Main "HOL-Library.Extended_Nat"
begin

unbundle bit_operations_syntax

section \<open>Python values and exceptions\<close>

text \<open>
  The generator \<^verbatim>\<open>skywater_pdk/liberty.py\<close> is Python. Every exception it can raise is
  a value of \<open>error\<close>; a function that can raise returns \<open>error + 'a\<close> with \<open>Inl\<close> the
  exception. Strings are \<open>string\<close>, one \<open>char\<close> per code point (code points below 256).
\<close>

datatype error =
  AssertionError | TypeError | ValueError | KeyError | IndexError | AttributeError

definition bind :: "error + 'a \<Rightarrow> ('a \<Rightarrow> error + 'b) \<Rightarrow> error + 'b" where
  "bind m f = (case m of Inl e \<Rightarrow> Inl e | Inr x \<Rightarrow> f x)"

text \<open>\<^verbatim>\<open>s.startswith(p)\<close>, \<^verbatim>\<open>s.endswith(p)\<close> and \<^verbatim>\<open>p in s\<close> on strings.\<close>

definition startswith :: "string \<Rightarrow> string \<Rightarrow> bool" where
  "startswith s p = (take (length p) s = p)"

definition endswith :: "string \<Rightarrow> string \<Rightarrow> bool" where
  "endswith s p = (length p \<le> length s \<and> drop (length s - length p) s = p)"

fun str_contains :: "string \<Rightarrow> string \<Rightarrow> bool" where
  "str_contains p [] = (p = [])"
| "str_contains p (c # cs) = (startswith (c # cs) p \<or> str_contains p cs)"

text \<open>\<^verbatim>\<open>s[:-n]\<close> for \<open>n = len(...)\<close>: Python reads \<^verbatim>\<open>s[:-0]\<close> as \<^verbatim>\<open>s[:0]\<close>, the empty string.\<close>

definition drop_last :: "nat \<Rightarrow> string \<Rightarrow> string" where
  "drop_last n s = (if n = 0 then [] else take (length s - n) s)"

section \<open>The timing-variant classifier: class TimingType(enum.IntFlag)\<close>

text \<open>
  An \<^verbatim>\<open>IntFlag\<close> member is an integer; \<^verbatim>\<open>|\<close> is bitwise or, \<^verbatim>\<open>==\<close> is integer equality and
  \<^verbatim>\<open>t in self\<close> is \<^verbatim>\<open>t & self == t\<close>. Iterating over the class yields the three declared
  members in declaration order, as the class's doctests show
  (\<^verbatim>\<open>TimingType.ccsnoise.names()\<close> is \<^verbatim>\<open>'basic, ccsnoise'\<close>).
\<close>

type_synonym TimingType = nat

definition basic :: TimingType where "basic = 1"
definition ccsnoise :: TimingType where "ccsnoise = 2 OR basic"
definition leakage :: TimingType where "leakage = 4"

definition TimingType_members :: "(string \<times> TimingType) list" where
  "TimingType_members = [(''basic'', basic), (''ccsnoise'', ccsnoise), (''leakage'', leakage)]"

definition TimingType_contains :: "TimingType \<Rightarrow> TimingType \<Rightarrow> bool" where
  "TimingType_contains t self = (t AND self = t)"

text \<open>
  The values the program can build: \<^verbatim>\<open>parse\<close> returns a member and \<^verbatim>\<open>collect\<close> accumulates
  members with \<^verbatim>\<open>|=\<close>, so a corner's capability is a union of members (the empty flag 0
  included).
\<close>

definition TimingType_unions :: "TimingType list" where
  "TimingType_unions = [0, 1, 3, 4, 5, 7]"

text \<open>\<^verbatim>\<open>TimingType.file\<close> (a property with no raise in its body).\<close>

definition TimingType_file :: "TimingType \<Rightarrow> string" where
  "TimingType_file self =
     (if self = ccsnoise then ''_ccsnoise''
      else if self = leakage then ''_pwrlkg''
      else '''')"

text \<open>\<^verbatim>\<open>TimingType.parse\<close>.\<close>

definition TimingType_parse :: "string \<Rightarrow> string \<times> TimingType" where
  "TimingType_parse name =
     (if endswith name ''_ccsnoise'' then (drop_last (length ''_ccsnoise'') name, ccsnoise)
      else if endswith name ''_pwrlkg'' then (drop_last (length ''_pwrlkg'') name, leakage)
      else (name, basic))"

text \<open>
  \<^verbatim>\<open>TimingType.types\<close>: the members contained in the value, without \<open>basic\<close> when \<open>ccsnoise\<close>
  is among them. \<^verbatim>\<open>set.remove\<close> raises \<^verbatim>\<open>KeyError\<close> on an element that is absent.
\<close>

definition TimingType_types :: "TimingType \<Rightarrow> error + TimingType list" where
  "TimingType_types self =
     (let tt = filter (\<lambda>t. TimingType_contains t self) (map snd TimingType_members)
      in if ccsnoise \<in> set tt
         then (if basic \<in> set tt then Inr (removeAll basic tt) else Inl KeyError)
         else Inr tt)"

text \<open>\<^verbatim>\<open>TimingType.singular\<close>.\<close>

definition TimingType_singular :: "TimingType \<Rightarrow> error + bool" where
  "TimingType_singular self = bind (TimingType_types self) (\<lambda>ts. Inr (length ts = 1))"

section \<open>File naming\<close>

text \<open>
  Both naming functions start with \<^verbatim>\<open>assert corner_type.singular, (..., corner_type.types())\<close>.
  When the test is false Python evaluates the message, and there \<^verbatim>\<open>types\<close> is a property
  holding a list, so calling it raises \<^verbatim>\<open>TypeError\<close> in place of the \<^verbatim>\<open>AssertionError\<close>.
\<close>

definition assert_singular :: "TimingType \<Rightarrow> error + unit" where
  "assert_singular corner_type =
     bind (TimingType_singular corner_type) (\<lambda>ok.
       if ok then Inr () else bind (TimingType_types corner_type) (\<lambda>_. Inl TypeError))"

definition top_corner_file :: "string \<Rightarrow> string \<Rightarrow> TimingType \<Rightarrow> error + string" where
  "top_corner_file libname corner corner_type =
     bind (assert_singular corner_type) (\<lambda>_.
       Inr (''timing/'' @ libname @ ''__'' @ corner @ TimingType_file corner_type @ ''.lib.json''))"

text \<open>
  \<^verbatim>\<open>sizes.parse_size\<close> belongs to a module that is not among the sources; it is the
  parameter \<open>parse_size\<close>, giving the \<^verbatim>\<open>suffix\<close> of the size it recognises at the end of the
  cell name, or \<open>None\<close>.
\<close>

definition cell_corner_file ::
  "(string \<Rightarrow> string option) \<Rightarrow> string \<Rightarrow> string \<Rightarrow> string \<Rightarrow> TimingType \<Rightarrow> error + string" where
  "cell_corner_file parse_size lib cell_with_size corner corner_type =
     bind (assert_singular corner_type) (\<lambda>_.
       let cell = (case parse_size cell_with_size of
                     Some suffix \<Rightarrow> drop_last (length suffix) cell_with_size
                   | None \<Rightarrow> cell_with_size)
       in Inr (''cells/'' @ cell @ ''/'' @ lib @ ''__'' @ cell_with_size @ ''__'' @ corner
                 @ TimingType_file corner_type @ ''.lib.json''))"


section \<open>JSON scalars and their renderings\<close>

text \<open>
  The values that \<^verbatim>\<open>json.load\<close> puts inside an attribute list: \<^verbatim>\<open>None\<close>, a \<^verbatim>\<open>bool\<close>, an
  \<^verbatim>\<open>int\<close> (unbounded), a \<^verbatim>\<open>float\<close> and a \<^verbatim>\<open>str\<close>. Binary floating point is not modelled: a
  float is carried by the text \<^verbatim>\<open>float.__repr__\<close> gives for it (\<^verbatim>\<open>1.5\<close> is \<open>PyFloat ''1.5''\<close>,
  \<^verbatim>\<open>1e20\<close> is \<open>PyFloat ''1e+20''\<close>), which is all that the formatter reads of it.
\<close>

datatype pyval = PyNone | PyBool bool | PyInt int | PyFloat string | PyStr string

datatype pytype = TNone | TBool | TInt | TFloat | TStr | TList

fun type_of :: "pyval \<Rightarrow> pytype" where
  "type_of PyNone = TNone"
| "type_of (PyBool _) = TBool"
| "type_of (PyInt _) = TInt"
| "type_of (PyFloat _) = TFloat"
| "type_of (PyStr _) = TStr"

text \<open>\<^verbatim>\<open>str(n)\<close> for an integer: decimal digits, a minus sign on a negative one.\<close>

definition digit_char :: "nat \<Rightarrow> char" where
  "digit_char d = ''0123456789'' ! d"

function str_nat :: "nat \<Rightarrow> string" where
  "str_nat n = (if n < 10 then [digit_char n] else str_nat (n div 10) @ [digit_char (n mod 10)])"
  by pat_completeness auto
termination
  by (relation "measure (\<lambda>n. n)") auto

declare str_nat.simps [simp del]

definition str_int :: "int \<Rightarrow> string" where
  "str_int i = (if i < 0 then CHR ''-'' # str_nat (nat (- i)) else str_nat (nat i))"

text \<open>\<^verbatim>\<open>str(x)\<close> on a scalar.\<close>

fun py_str :: "pyval \<Rightarrow> string" where
  "py_str PyNone = ''None''"
| "py_str (PyBool b) = (if b then ''True'' else ''False'')"
| "py_str (PyInt i) = str_int i"
| "py_str (PyFloat r) = r"
| "py_str (PyStr s) = s"

text \<open>
  \<^verbatim>\<open>json.dumps(x)\<close> on a scalar, with the default \<^verbatim>\<open>ensure_ascii=True\<close>: inside a string every
  character outside \<^verbatim>\<open>' '..'~'\<close>, the quote and the backslash are escaped.
\<close>

definition hex_digit :: "nat \<Rightarrow> char" where
  "hex_digit d = ''0123456789abcdef'' ! d"

definition json_escape_char :: "char \<Rightarrow> string" where
  "json_escape_char c =
     (if c = CHR 0x5C then [CHR 0x5C, CHR 0x5C]
      else if c = CHR 0x22 then [CHR 0x5C, CHR 0x22]
      else if c = CHR 0x08 then [CHR 0x5C, CHR ''b'']
      else if c = CHR 0x0C then [CHR 0x5C, CHR ''f'']
      else if c = CHR 0x0A then [CHR 0x5C, CHR ''n'']
      else if c = CHR 0x0D then [CHR 0x5C, CHR ''r'']
      else if c = CHR 0x09 then [CHR 0x5C, CHR ''t'']
      else if 0x20 \<le> (of_char c :: nat) \<and> (of_char c :: nat) \<le> 0x7E then [c]
      else [CHR 0x5C, CHR ''u'', CHR ''0'', CHR ''0'',
            hex_digit ((of_char c :: nat) div 16), hex_digit ((of_char c :: nat) mod 16)])"

fun json_dumps :: "pyval \<Rightarrow> string" where
  "json_dumps PyNone = ''null''"
| "json_dumps (PyBool b) = (if b then ''true'' else ''false'')"
| "json_dumps (PyInt i) = str_int i"
| "json_dumps (PyFloat r) =
     (if r = ''nan'' then ''NaN''
      else if r = ''inf'' then ''Infinity''
      else if r = ''-inf'' then ''-Infinity''
      else r)"
| "json_dumps (PyStr s) = [CHR 0x22] @ concat (map json_escape_char s) @ [CHR 0x22]"

text \<open>\<^verbatim>\<open>s.split(sep)\<close> for a separator of one character, and \<^verbatim>\<open>sep.join(parts)\<close>.\<close>

fun split :: "char \<Rightarrow> string \<Rightarrow> string list" where
  "split sep [] = [[]]"
| "split sep (c # cs) =
     (if c = sep then [] # split sep cs
      else (case split sep cs of p # ps \<Rightarrow> (c # p) # ps | [] \<Rightarrow> [[c]]))"

fun join :: "string \<Rightarrow> string list \<Rightarrow> string" where
  "join sep [] = []"
| "join sep [p] = p"
| "join sep (p # q # ps) = p @ sep @ join sep (q # ps)"

section \<open>The numeric formatter: liberty\_float\<close>

text \<open>\<^verbatim>\<open>WIDTH = len(str(0.0083333333))\<close>.\<close>

definition WIDTH :: nat where
  "WIDTH = length ''0.0083333333''"

text \<open>The loops \<^verbatim>\<open>while len(s) < WIDTH: s += '0'\<close> and \<^verbatim>\<open>while len(a)+len(b)+1 < WIDTH: a += '0'\<close>.\<close>

function pad_zeros :: "string \<Rightarrow> string" where
  "pad_zeros s = (if length s < WIDTH then pad_zeros (s @ ''0'') else s)"
  by pat_completeness auto
termination
  by (relation "measure (\<lambda>s. WIDTH - length s)") auto

declare pad_zeros.simps [simp del]

function pad_mantissa :: "string \<Rightarrow> string \<Rightarrow> string" where
  "pad_mantissa a b = (if length a + length b + 1 < WIDTH then pad_mantissa (a @ ''0'') b else a)"
  by pat_completeness auto
termination
  by (relation "measure (\<lambda>(a, b). WIDTH - length a)") auto

declare pad_mantissa.simps [simp del]

text \<open>
  \<^verbatim>\<open>a, b = s.split('e')\<close> raises \<^verbatim>\<open>ValueError\<close> unless the split has exactly two parts.
\<close>

definition liberty_float :: "pyval \<Rightarrow> error + string" where
  "liberty_float f =
     (let s = json_dumps f in
      if CHR ''e'' \<in> set s then
        (case split CHR ''e'' s of
           [a, b] \<Rightarrow>
             (let a1 = (if CHR ''.'' \<notin> set a then a @ ''.'' else a);
                  a2 = pad_mantissa a1 b
              in Inr (a2 @ ''e'' @ b))
         | _ \<Rightarrow> Inl ValueError)
      else if CHR ''.'' \<in> set s then Inr (pad_zeros s)
      else Inr (pad_zeros (if length s < WIDTH then s @ ''.'' else s)))"

section \<open>The list emitter: liberty\_join and liberty\_list\<close>

text \<open>
  The value of a list attribute is a flat list of scalars (\<^verbatim>\<open>index_1\<close>) or a list of lists of
  scalars (the rows of \<^verbatim>\<open>values\<close>); \<^verbatim>\<open>liberty_list\<close> tells them apart by
  \<^verbatim>\<open>isinstance(v[0], list)\<close>. The empty list is \<open>Flat []\<close> (and \<open>Table []\<close> is the same Python
  value). Lists that mix scalars and lists are outside this type.
\<close>

datatype list_value = Flat "pyval list" | Table "pyval list list"

definition is_float :: "pyval \<Rightarrow> bool" where
  "is_float x = (type_of x = TFloat)"

definition is_int :: "pyval \<Rightarrow> bool" where
  "is_int x = (type_of x = TInt)"

text \<open>
  \<^verbatim>\<open>liberty_join(l)\<close> counts the elements by \<^verbatim>\<open>type(i)\<close> and returns one of two closures:
  the one that renders with \<^verbatim>\<open>liberty_float\<close> or the one that renders with \<^verbatim>\<open>str\<close>.
\<close>

datatype joiner = FloatJoin | IntJoin

definition liberty_join :: "pyval list \<Rightarrow> error + joiner" where
  "liberty_join l =
     (let d = (\<lambda>t. length (filter (\<lambda>i. type_of i = t) l)) in
      if d TFloat > 0 then
        (if d TFloat + d TInt = length l then Inr FloatJoin else Inl AssertionError)
      else if d TInt > 0 then
        (if d TInt = length l then Inr IntJoin else Inl AssertionError)
      else Inl ValueError)"

fun map_err :: "('a \<Rightarrow> error + 'b) \<Rightarrow> 'a list \<Rightarrow> error + 'b list" where
  "map_err f [] = Inr []"
| "map_err f (x # xs) = bind (f x) (\<lambda>y. bind (map_err f xs) (\<lambda>ys. Inr (y # ys)))"

text \<open>Calling the closure: \<^verbatim>\<open>", ".join(liberty_float(f) for f in l)\<close> or \<^verbatim>\<open>", ".join(str(f) for f in l)\<close>.\<close>

fun apply_join :: "joiner \<Rightarrow> pyval list \<Rightarrow> error + string" where
  "apply_join FloatJoin l = bind (map_err liberty_float l) (\<lambda>ps. Inr (join '', '' ps))"
| "apply_join IntJoin l = Inr (join '', '' (map py_str l))"

definition INDENT :: string where
  "INDENT = ''    ''"

definition indent :: "nat \<Rightarrow> string" where
  "indent n = concat (replicate n INDENT)"

text \<open>\<^verbatim>\<open>s.lstrip()\<close> drops the leading characters for which \<^verbatim>\<open>str.isspace\<close> holds.\<close>

definition is_space :: "char \<Rightarrow> bool" where
  "is_space c = ((of_char c :: nat) \<in> set [9, 10, 11, 12, 13, 28, 29, 30, 31, 32, 133, 160])"

definition lstrip :: "string \<Rightarrow> string" where
  "lstrip s = dropWhile is_space s"

text \<open>
  \<^verbatim>\<open>liberty_list(k, v, i)\<close>. \<^verbatim>\<open>v[0]\<close> raises \<^verbatim>\<open>IndexError\<close> on the empty list. For a table the
  closure comes from \<^verbatim>\<open>liberty_join(v[0])\<close> and is called on every row; then the opening
  line is merged with the first row and the last three characters of the last line are
  replaced by \<^verbatim>\<open>');'\<close>.
\<close>

definition liberty_list :: "string \<Rightarrow> list_value \<Rightarrow> string list \<Rightarrow> error + string list" where
  "liberty_list k v i =
     (case v of
        Flat [] \<Rightarrow> Inl IndexError
      | Table [] \<Rightarrow> Inl IndexError
      | Table (r0 # rows) \<Rightarrow>
          bind (liberty_join r0) (\<lambda>j.
          bind (map_err (\<lambda>l. bind (apply_join j l) (\<lambda>s.
                  Inr (indent (length i + 1) @ [CHR 0x22] @ s @ [CHR 0x22] @ '', '' @ [CHR 0x5C])))
                (r0 # rows)) (\<lambda>rs.
            let o1 = (indent (length i) @ k @ ''('') # rs;
                o0 = hd o1;
                o2 = tl o1;
                o3 = o2[0 := o0 @ lstrip (o2 ! 0)];
                o4 = o3[length o3 - 1 := drop_last 3 (last o3) @ '');'']
            in Inr o4))
      | Flat l \<Rightarrow>
          bind (liberty_join l) (\<lambda>j.
          bind (apply_join j l) (\<lambda>s.
            Inr [indent (length i) @ k @ ''('' @ [CHR 0x22] @ s @ [CHR 0x22] @ '');''])))"


section \<open>Records: the values json.load returns\<close>

text \<open>
  A record is a JSON value. A \<^verbatim>\<open>dict\<close> is the list of its items in insertion order, with
  distinct keys; assigning to a key that is present keeps its place, assigning to a new key
  appends, \<^verbatim>\<open>del\<close> removes the item. A float is carried by its text, as in \<open>pyval\<close>.
\<close>

datatype json =
  JNull | JBool bool | JInt int | JFloat string | JStr string
  | JList "json list" | JDict "(string \<times> json) list"

type_synonym 'v dict = "(string \<times> 'v) list"

definition dict_keys :: "'v dict \<Rightarrow> string list" where
  "dict_keys d = map fst d"

fun dict_set :: "'v dict \<Rightarrow> string \<Rightarrow> 'v \<Rightarrow> 'v dict" where
  "dict_set [] k v = [(k, v)]"
| "dict_set ((k', v') # d) k v = (if k' = k then (k, v) # d else (k', v') # dict_set d k v)"

definition dict_del :: "'v dict \<Rightarrow> string \<Rightarrow> 'v dict" where
  "dict_del d k = filter (\<lambda>(k', v). k' \<noteq> k) d"

text \<open>
  The operations \<^verbatim>\<open>remove_ccsnoise\<close> applies to values whose type it does not check:
  \<^verbatim>\<open>k in x\<close>, \<^verbatim>\<open>for e in x\<close>, \<^verbatim>\<open>e.startswith(p)\<close>, \<^verbatim>\<open>del x[k]\<close> and \<^verbatim>\<open>x[k]\<close> with \<open>k\<close> a string. Each
  raises as Python does on a value of the wrong type.
\<close>

fun py_in :: "string \<Rightarrow> json \<Rightarrow> error + bool" where
  "py_in k (JDict d) = Inr (k \<in> set (dict_keys d))"
| "py_in k (JList l) = Inr (JStr k \<in> set l)"
| "py_in k (JStr s) = Inr (str_contains k s)"
| "py_in k _ = Inl TypeError"

fun py_iter :: "json \<Rightarrow> error + json list" where
  "py_iter (JDict d) = Inr (map JStr (dict_keys d))"
| "py_iter (JList l) = Inr l"
| "py_iter (JStr s) = Inr (map (\<lambda>c. JStr [c]) s)"
| "py_iter _ = Inl TypeError"

fun py_startswith :: "json \<Rightarrow> string \<Rightarrow> error + bool" where
  "py_startswith (JStr s) p = Inr (startswith s p)"
| "py_startswith _ p = Inl AttributeError"

fun py_delitem :: "json \<Rightarrow> string \<Rightarrow> error + json" where
  "py_delitem (JDict d) k =
     (if k \<in> set (dict_keys d) then Inr (JDict (dict_del d k)) else Inl KeyError)"
| "py_delitem _ k = Inl TypeError"

fun py_getitem :: "json \<Rightarrow> string \<Rightarrow> error + json" where
  "py_getitem (JDict d) k = (case map_of d k of Some v \<Rightarrow> Inr v | None \<Rightarrow> Inl KeyError)"
| "py_getitem _ k = Inl TypeError"

fun fold_err :: "('a \<Rightarrow> 'b \<Rightarrow> error + 'b) \<Rightarrow> 'a list \<Rightarrow> 'b \<Rightarrow> error + 'b" where
  "fold_err f [] s = Inr s"
| "fold_err f (x # xs) s = bind (f x s) (fold_err f xs)"

section \<open>Stripping: remove\_ccsnoise\<close>

text \<open>
  The two inner loops that collect the keys starting with \<^verbatim>\<open>ccsn_\<close> into a set and then delete
  them: used on a pin's record and on each element of its \<^verbatim>\<open>timing\<close>.
\<close>

definition strip_ccsn_keys :: "json \<Rightarrow> error + json" where
  "strip_ccsn_keys x =
     bind (py_iter x) (\<lambda>ks.
     bind (map_err (\<lambda>k. bind (py_startswith k ''ccsn_'') (\<lambda>b. Inr (k, b))) ks) (\<lambda>kbs.
       let ccsn_keys = remdups (concat (map (\<lambda>(k, b). case k of JStr s \<Rightarrow> if b then [s] else []
                                                              | _ \<Rightarrow> []) kbs))
       in fold_err (\<lambda>k y. py_delitem y k) ccsn_keys x))"

text \<open>
  \<^verbatim>\<open>for i,t in enumerate(pin_timing)\<close>: the elements of a list are stripped in place; the
  elements seen when iterating anything else are strings, on which nothing is deleted.
\<close>

definition strip_timing :: "json \<Rightarrow> error + json" where
  "strip_timing pin_timing =
     (case pin_timing of
        JList ts \<Rightarrow> bind (map_err strip_ccsn_keys ts) (\<lambda>ts'. Inr (JList ts'))
      | _ \<Rightarrow> bind (py_iter pin_timing) (\<lambda>ts.
               bind (map_err strip_ccsn_keys ts) (\<lambda>_. Inr pin_timing)))"

text \<open>The body of the outer loop for a key that starts with \<^verbatim>\<open>"pin "\<close>.\<close>

definition strip_pin :: "json \<Rightarrow> error + json" where
  "strip_pin pin_data =
     bind (py_in ''input_voltage'' pin_data) (\<lambda>has_iv.
     bind (if has_iv then py_delitem pin_data ''input_voltage'' else Inr pin_data) (\<lambda>p1.
     bind (strip_ccsn_keys p1) (\<lambda>p2.
     bind (py_in ''timing'' p2) (\<lambda>has_timing.
       if \<not> has_timing then Inr p2
       else bind (py_getitem p2 ''timing'') (\<lambda>pin_timing.
            bind (strip_timing pin_timing) (\<lambda>pin_timing'.
              case p2 of JDict d \<Rightarrow> Inr (JDict (dict_set d ''timing'' pin_timing'))
                       | _ \<Rightarrow> Inr p2))))))"

text \<open>
  \<^verbatim>\<open>remove_ccsnoise(data, cellname)\<close>, returning the record it leaves; \<^verbatim>\<open>data.items()\<close> raises
  \<^verbatim>\<open>AttributeError\<close> on a value that is not a dict. \<open>cellname\<close> is only printed (in debug mode).
\<close>

definition remove_item :: "string \<times> json \<Rightarrow> error + json dict" where
  "remove_item kv =
     (case kv of (k, v) \<Rightarrow>
        if str_contains ''ccsn_'' k then Inr []
        else if \<not> startswith k ''pin '' then Inr [(k, v)]
        else bind (strip_pin v) (\<lambda>v'. Inr [(k, v')]))"

definition remove_ccsnoise :: "json \<Rightarrow> string \<Rightarrow> error + json" where
  "remove_ccsnoise data cellname =
     (case data of
        JDict d \<Rightarrow> bind (map_err remove_item d) (\<lambda>items. Inr (JDict (concat items)))
      | _ \<Rightarrow> Inl AttributeError)"

text \<open>
  What stripping is to leave, stated on its own (to be compared with \<open>remove_ccsnoise\<close>): at
  the top level every item whose key contains \<^verbatim>\<open>ccsn_\<close> goes; in each remaining item whose key
  starts with \<^verbatim>\<open>"pin "\<close>, the key \<^verbatim>\<open>input_voltage\<close> and the keys starting with \<^verbatim>\<open>ccsn_\<close> go, and
  in each element of its \<^verbatim>\<open>timing\<close> list the keys starting with \<^verbatim>\<open>ccsn_\<close> go. Everything else
  stays, in its order.
\<close>

definition without_ccsn_prefix :: "json dict \<Rightarrow> json dict" where
  "without_ccsn_prefix d = filter (\<lambda>(k, v). \<not> startswith k ''ccsn_'') d"

definition stripped_timing_element :: "json \<Rightarrow> json" where
  "stripped_timing_element t = (case t of JDict td \<Rightarrow> JDict (without_ccsn_prefix td) | _ \<Rightarrow> t)"

definition stripped_pin :: "json dict \<Rightarrow> json dict" where
  "stripped_pin pd =
     map (\<lambda>(k, v). if k = ''timing''
                    then (k, case v of JList ts \<Rightarrow> JList (map stripped_timing_element ts) | _ \<Rightarrow> v)
                    else (k, v))
         (without_ccsn_prefix (filter (\<lambda>(k, v). k \<noteq> ''input_voltage'') pd))"

definition stripped_record :: "json dict \<Rightarrow> json dict" where
  "stripped_record d =
     map (\<lambda>(k, v). if startswith k ''pin ''
                    then (k, case v of JDict pd \<Rightarrow> JDict (stripped_pin pd) | _ \<Rightarrow> v)
                    else (k, v))
         (filter (\<lambda>(k, v). \<not> str_contains ''ccsn_'' k) d)"

text \<open>
  The shape of a record: each pin is a dict (distinct keys) whose \<^verbatim>\<open>timing\<close>, when it has one,
  is a list of dicts.
\<close>

definition is_dict :: "json \<Rightarrow> bool" where
  "is_dict x = (case x of JDict _ \<Rightarrow> True | _ \<Rightarrow> False)"

definition pin_shaped :: "json \<Rightarrow> bool" where
  "pin_shaped v =
     (case v of
        JDict pd \<Rightarrow>
          distinct (dict_keys pd)
          \<and> (case map_of pd ''timing'' of
                None \<Rightarrow> True
              | Some (JList ts) \<Rightarrow> list_all is_dict ts
              | Some _ \<Rightarrow> False)
      | _ \<Rightarrow> False)"

definition record_shaped :: "json dict \<Rightarrow> bool" where
  "record_shaped d =
     list_all (\<lambda>(k, v). if startswith k ''pin '' \<and> \<not> str_contains ''ccsn_'' k
                         then pin_shaped v else True) d"

text \<open>
  The guard of \<^verbatim>\<open>generate\<close> around both calls:
  \<^verbatim>\<open>if ocorner_type != TimingType.ccsnoise: remove_ccsnoise(data, name)\<close>.
\<close>

definition strip_unless_ccsnoise :: "TimingType \<Rightarrow> json \<Rightarrow> string \<Rightarrow> error + json" where
  "strip_unless_ccsnoise ocorner_type data cellname =
     (if ocorner_type \<noteq> ccsnoise then remove_ccsnoise data cellname else Inr data)"

section \<open>The assembler: generate, and the driver's choice of the input variant\<close>

text \<open>\<^verbatim>\<open>os.path.join(a, b)\<close> and \<^verbatim>\<open>s.replace(old, new)\<close> for a non-empty \<open>old\<close>.\<close>

definition path_join :: "string \<Rightarrow> string \<Rightarrow> string" where
  "path_join a b =
     (if startswith b ''/'' then b
      else if a = [] \<or> endswith a ''/'' then a @ b
      else a @ ''/'' @ b)"

function str_replace :: "string \<Rightarrow> string \<Rightarrow> string \<Rightarrow> string" where
  "str_replace old new s =
     (if s = [] \<or> old = [] then s
      else if startswith s old then new @ str_replace old new (drop (length old) s)
      else hd s # str_replace old new (tl s))"
  by pat_completeness auto
termination
  by (relation "measure (\<lambda>(old, new, s). length s)") auto

declare str_replace.simps [simp del]

text \<open>
  What \<^verbatim>\<open>generate\<close> prints on the console when the corner's record overwrites a key of the
  common record: \<^verbatim>\<open>print("Overwriting", k, "with", v, "(existing value of", common_data[k], ")")\<close>.
\<close>

datatype event = Overwriting string json json

text \<open>
  The two loops that fill \<^verbatim>\<open>common_data\<close>: the first asserts that the key is new, the second
  reports a key that is present and assigns in both cases.
\<close>

fun load_common :: "json dict \<Rightarrow> json dict \<Rightarrow> error + json dict" where
  "load_common common_data [] = Inr common_data"
| "load_common common_data ((k, v) # d) =
     (if k \<in> set (dict_keys common_data) then Inl AssertionError
      else load_common (dict_set common_data k v) d)"

fun merge_top :: "json dict \<times> event list \<Rightarrow> json dict \<Rightarrow> json dict \<times> event list" where
  "merge_top (common_data, out) [] = (common_data, out)"
| "merge_top (common_data, out) ((k, v) # d) =
     merge_top (dict_set common_data k v,
                out @ (case map_of common_data k of
                         Some old \<Rightarrow> [Overwriting k v old]
                       | None \<Rightarrow> [])) d"

text \<open>
  The files are the function \<open>fs\<close>: the parsed content of a path, or \<open>None\<close> when
  \<^verbatim>\<open>os.path.exists\<close> is false (the \<^verbatim>\<open>assert\<close> on it then fails). Lines 313 to 336 of
  \<^verbatim>\<open>generate\<close>: load the common record, merge the corner's record of the input variant over it,
  strip. The result carries the paths read and the console events.
\<close>

definition load_top_data ::
  "(string \<Rightarrow> json option) \<Rightarrow> string \<Rightarrow> string \<Rightarrow> string \<Rightarrow> TimingType \<Rightarrow> TimingType
     \<Rightarrow> error + (json \<times> string list \<times> event list)" where
  "load_top_data fs library_dir lib corner ocorner_type icorner_type =
     (let common_data_path =
            path_join (path_join library_dir ''timing'') (lib @ ''__common.lib.json'') in
      case fs common_data_path of
        None \<Rightarrow> Inl AssertionError
      | Some (JDict d) \<Rightarrow>
          bind (load_common [] d) (\<lambda>common_data.
          bind (top_corner_file lib corner icorner_type) (\<lambda>fname.
            let top_data_path = path_join library_dir fname in
            case fs top_data_path of
              None \<Rightarrow> Inl AssertionError
            | Some (JDict t) \<Rightarrow>
                (case merge_top (common_data, []) t of (merged, out) \<Rightarrow>
                   bind (strip_unless_ccsnoise ocorner_type (JDict merged) ''library'') (\<lambda>data.
                     Inr (data, [common_data_path, top_data_path], out)))
            | Some _ \<Rightarrow> Inl AssertionError))
      | Some _ \<Rightarrow> Inl AssertionError)"

text \<open>Lines 343 to 352: load one cell's record of the input variant and strip it.\<close>

definition load_cell_data ::
  "(string \<Rightarrow> json option) \<Rightarrow> (string \<Rightarrow> string option) \<Rightarrow> string \<Rightarrow> string \<Rightarrow> string \<Rightarrow> string
     \<Rightarrow> TimingType \<Rightarrow> TimingType \<Rightarrow> error + (json \<times> string)" where
  "load_cell_data fs parse_size library_dir lib cell_with_size corner ocorner_type icorner_type =
     bind (cell_corner_file parse_size lib cell_with_size corner icorner_type) (\<lambda>fname.
       let fpath = path_join library_dir fname in
       case fs fpath of
         None \<Rightarrow> Inl AssertionError
       | Some cell_data \<Rightarrow>
           bind (strip_unless_ccsnoise ocorner_type cell_data cell_with_size) (\<lambda>data.
             Inr (data, fpath)))"

text \<open>\<^verbatim>\<open>top_write(lines)\<close> is \<^verbatim>\<open>print("\n".join(lines), file=top_fout)\<close>.\<close>

definition top_write :: "string \<Rightarrow> string list \<Rightarrow> string" where
  "top_write text lines = text @ join [CHR 0x0A] lines @ [CHR 0x0A]"

record gen_result =
  out_path :: string
  out_text :: string
  reads :: "string list"
  console :: "event list"

text \<open>
  \<^verbatim>\<open>generate\<close>. The serializer \<^verbatim>\<open>liberty_dict(dtype, dvalue, data, indent)\<close> is the parameter
  \<open>ser\<close>: nothing proved here depends on what it prints, so it holds for every serializer.
  \<^verbatim>\<open>output[-1]\<close> raises \<^verbatim>\<open>IndexError\<close> on the empty list.
\<close>

definition write_cell ::
  "(string \<Rightarrow> json option) \<Rightarrow> (string \<Rightarrow> string option)
     \<Rightarrow> (string \<Rightarrow> string \<Rightarrow> json \<Rightarrow> string list \<Rightarrow> error + string list)
     \<Rightarrow> string \<Rightarrow> string \<Rightarrow> string \<Rightarrow> TimingType \<Rightarrow> TimingType
     \<Rightarrow> string \<Rightarrow> string \<times> string list \<Rightarrow> error + (string \<times> string list)" where
  "write_cell fs parse_size ser library_dir lib corner ocorner_type icorner_type cell_with_size st =
     (case st of (text, rd) \<Rightarrow>
        bind (load_cell_data fs parse_size library_dir lib cell_with_size corner
                ocorner_type icorner_type) (\<lambda>(cell_data, fpath).
        bind (ser ''cell'' (lib @ ''__'' @ cell_with_size) cell_data [cell_with_size]) (\<lambda>lines.
          Inr (top_write (top_write text ['''']) lines, rd @ [fpath]))))"

definition generate ::
  "(string \<Rightarrow> json option) \<Rightarrow> (string \<Rightarrow> string option)
     \<Rightarrow> (string \<Rightarrow> string \<Rightarrow> json \<Rightarrow> string list \<Rightarrow> error + string list)
     \<Rightarrow> string \<Rightarrow> string \<Rightarrow> string \<Rightarrow> TimingType \<Rightarrow> TimingType \<Rightarrow> string list
     \<Rightarrow> error + gen_result" where
  "generate fs parse_size ser library_dir lib corner ocorner_type icorner_type cells =
     bind (top_corner_file lib corner ocorner_type) (\<lambda>fname.
       let top_fpath = path_join library_dir (str_replace ''.lib.json'' ''.lib'' fname) in
       bind (load_top_data fs library_dir lib corner ocorner_type icorner_type)
         (\<lambda>(common_data, rd, out).
       bind (ser ''library'' (lib @ ''__'' @ corner) common_data []) (\<lambda>output.
         if output = [] then Inl IndexError
         else if last output \<noteq> ''}'' then Inl AssertionError
         else
           bind (fold_err (write_cell fs parse_size ser library_dir lib corner
                             ocorner_type icorner_type)
                   cells (top_write [] (butlast output), rd)) (\<lambda>(text, rd').
             Inr \<lparr>out_path = top_fpath,
                  out_text = top_write (top_write text ['''']) [''}''],
                  reads = rd',
                  console = out\<rparr>))))"

text \<open>
  The driver, for one corner (lines 894 to 908 of \<^verbatim>\<open>main\<close>): \<open>None\<close> is the refusal
  (\<^verbatim>\<open>return 1\<close>) when the output variant is not in the corner's capability; otherwise the
  input variant it passes to \<^verbatim>\<open>generate\<close>.
\<close>

definition input_corner_type_for :: "TimingType \<Rightarrow> TimingType \<Rightarrow> TimingType option" where
  "input_corner_type_for output_corner_type input_corner_type =
     (if \<not> TimingType_contains output_corner_type input_corner_type then None
      else if output_corner_type = basic \<and> TimingType_contains ccsnoise input_corner_type
           then Some ccsnoise
           else Some output_corner_type)"

definition main_corner ::
  "(string \<Rightarrow> json option) \<Rightarrow> (string \<Rightarrow> string option)
     \<Rightarrow> (string \<Rightarrow> string \<Rightarrow> json \<Rightarrow> string list \<Rightarrow> error + string list)
     \<Rightarrow> string \<Rightarrow> string \<Rightarrow> string \<Rightarrow> TimingType \<Rightarrow> TimingType \<times> string list
     \<Rightarrow> (error + gen_result) option" where
  "main_corner fs parse_size ser libdir lib corner output_corner_type entry =
     (case entry of (input_corner_type, corner_cells) \<Rightarrow>
        (case input_corner_type_for output_corner_type input_corner_type of
           None \<Rightarrow> None
         | Some icorner_type \<Rightarrow>
             Some (generate fs parse_size ser libdir lib corner output_corner_type icorner_type
                     corner_cells)))"
section \<open>The attribute ordering: liberty\_attribute\_order\<close>

text \<open>
  \<^verbatim>\<open>RE_LIBERTY_LIST = re.compile("(.*)_([0-9]+)")\<close>, used with \<^verbatim>\<open>match\<close>: anchored at the start
  of the name, not at its end. \<^verbatim>\<open>.\<close> matches every character but the newline and \<^verbatim>\<open>.*\<close> is
  greedy: the matcher tries the longest first group and backtracks. \<open>re_liberty_list_from pre s\<close>
  has read \<open>pre\<close> into the first group and looks at the rest \<open>s\<close>: it first tries to put the
  next character into the group, and when that fails it tries \<^verbatim>\<open>_([0-9]+)\<close> here; the second
  group takes all the digits that follow. The result is \<^verbatim>\<open>(m.group(1), m.group(2))\<close>, or \<open>None\<close>
  when there is no match.
\<close>

definition is_digit :: "char \<Rightarrow> bool" where
  "is_digit c = (c \<in> set ''0123456789'')"

fun re_liberty_list_from :: "string \<Rightarrow> string \<Rightarrow> (string \<times> string) option" where
  "re_liberty_list_from pre [] = None"
| "re_liberty_list_from pre (c # cs) =
     (case (if c = CHR 0x0A then None else re_liberty_list_from (pre @ [c]) cs) of
        Some r \<Rightarrow> Some r
      | None \<Rightarrow>
          if c = CHR ''_'' \<and> cs \<noteq> [] \<and> is_digit (hd cs)
          then Some (pre, takeWhile is_digit cs)
          else None)"

definition RE_LIBERTY_LIST_match :: "string \<Rightarrow> (string \<times> string) option" where
  "RE_LIBERTY_LIST_match s = re_liberty_list_from [] s"

text \<open>
  \<^verbatim>\<open>float(x)\<close> on a nonnegative integer or on a string of decimal digits is the nearest double,
  ties to the even mantissa, and \<^verbatim>\<open>inf\<close> from \<open>2 ^ 1024 - 2 ^ 970\<close> on. Such a double is a
  nonnegative integer or \<^verbatim>\<open>inf\<close>, so \<open>enat\<close> holds it exactly: below \<open>2 ^ 53\<close> the conversion is
  exact, above it the integer is cut to its 53 leading bits and rounded.
\<close>

function bit_length :: "nat \<Rightarrow> nat" where
  "bit_length n = (if n = 0 then 0 else Suc (bit_length (n div 2)))"
  by pat_completeness auto
termination
  by (relation "measure (\<lambda>n. n)") auto

declare bit_length.simps [simp del]

definition float_of_nat :: "nat \<Rightarrow> enat" where
  "float_of_nat n =
     (if n < 2 ^ 53 then enat n
      else
        let e = bit_length n - 53;
            q = n div 2 ^ e;
            r = n mod 2 ^ e;
            half = 2 ^ (e - 1);
            q' = (if half < r \<or> (r = half \<and> odd q) then q + 1 else q);
            v = q' * 2 ^ e
        in if 2 ^ 1024 \<le> v then \<infinity> else enat v)"

definition digit_val :: "char \<Rightarrow> nat" where
  "digit_val c = length (takeWhile (\<lambda>d. d \<noteq> c) ''0123456789'')"

definition nat_of_digits :: "string \<Rightarrow> nat" where
  "nat_of_digits s = foldl (\<lambda>a c. 10 * a + digit_val c) 0 s"

definition float_of_digits :: "string \<Rightarrow> enat" where
  "float_of_digits s = float_of_nat (nat_of_digits s)"

text \<open>\<^verbatim>\<open>s.find(sub)\<close>: the lowest index at which \<^verbatim>\<open>sub\<close> starts, \<open>None\<close> for \<^verbatim>\<open>-1\<close>.\<close>

fun str_find_from :: "nat \<Rightarrow> string \<Rightarrow> string \<Rightarrow> nat option" where
  "str_find_from i [] sub = (if sub = [] then Some i else None)"
| "str_find_from i (c # cs) sub =
     (if startswith (c # cs) sub then Some i else str_find_from (Suc i) cs sub)"

definition str_find :: "string \<Rightarrow> string \<Rightarrow> nat option" where
  "str_find s sub = str_find_from 0 s sub"

text \<open>
  \<^verbatim>\<open>_lookup_attribute_pos\<close> searches the module constant \<^verbatim>\<open>LIBERTY_ATTRIBUTE_ORDER\<close>, the grammar
  skeleton with its comments removed. The skeleton is the first argument here, so that what
  is proved of the ordering holds for every text of the skeleton.
\<close>

definition lookup_attribute_pos :: "string \<Rightarrow> string \<Rightarrow> enat option" where
  "lookup_attribute_pos LIBERTY_ATTRIBUTE_ORDER name0 =
     (let name = '' '' @ name0;
          name = (if endswith name ''_'' then name @ '' '' else name)
      in case str_find LIBERTY_ATTRIBUTE_ORDER name of
           Some i \<Rightarrow> Some (float_of_nat i)
         | None \<Rightarrow> None)"

text \<open>
  \<^verbatim>\<open>if i:\<close> on the result of the lookup: \<^verbatim>\<open>None\<close> and \<^verbatim>\<open>0.0\<close> are false, every other float is
  true.
\<close>

definition truthy :: "enat option \<Rightarrow> bool" where
  "truthy i = (case i of None \<Rightarrow> False | Some x \<Rightarrow> x \<noteq> 0)"

text \<open>\<^verbatim>\<open>s[:s.index('(')]\<close> when \<^verbatim>\<open>'(' in s\<close>.\<close>

definition before_paren :: "string \<Rightarrow> string" where
  "before_paren s = takeWhile (\<lambda>c. c \<noteq> CHR ''('') s"

definition liberty_attribute_order :: "string \<Rightarrow> string \<Rightarrow> error + (enat \<times> enat)" where
  "liberty_attribute_order LIBERTY_ATTRIBUTE_ORDER attr_name =
     (if CHR '':'' \<in> set attr_name then Inl AssertionError
      else
        case RE_LIBERTY_LIST_match attr_name of
          Some (k, n) \<Rightarrow>
            let i = lookup_attribute_pos LIBERTY_ATTRIBUTE_ORDER k;
                i = (if \<not> truthy i then \<infinity> else the i)
            in Inr (i, float_of_digits n)
        | None \<Rightarrow>
            let lookup_name = attr_name;
                i = lookup_attribute_pos LIBERTY_ATTRIBUTE_ORDER lookup_name
            in if truthy i then Inr (the i, 0)
               else
                 let lookup_name = (if CHR ''('' \<in> set lookup_name
                                    then before_paren lookup_name else lookup_name);
                     lookup_name = (if str_contains ''default_'' attr_name
                                    then ''default_...'' else lookup_name);
                     lookup_name = (if str_contains ''_unit'' attr_name
                                    then ''..._unit'' else lookup_name);
                     lookup_name = (if str_contains ''k_'' attr_name
                                    then ''k_...'' else lookup_name);
                     i = lookup_attribute_pos LIBERTY_ATTRIBUTE_ORDER lookup_name
                 in if truthy i then Inr (the i, 0) else Inr (\<infinity>, \<infinity>))"

text \<open>
  The keys are pairs of floats and \<^verbatim>\<open>sorted\<close> compares them as Python compares tuples: by the
  first components when they differ, by the second ones otherwise.
\<close>

definition key_less :: "enat \<times> enat \<Rightarrow> enat \<times> enat \<Rightarrow> bool" where
  "key_less a b = (if fst a = fst b then snd a < snd b else fst a < fst b)"

section \<open>Properties of the timing-variant classifier and of file naming\<close>

lemmas TimingType_defs =
  basic_def ccsnoise_def leakage_def TimingType_contains_def TimingType_members_def

lemma ccsnoise_value: "ccsnoise = 3"
  by (simp add: ccsnoise_def basic_def)

lemma contains_ccsnoise_basic:
  assumes "TimingType_contains ccsnoise v"
  shows "TimingType_contains basic v"
proof -
  have "1 AND v = (1 AND 3) AND v" by simp
  also have "\<dots> = 1 AND (3 AND v)" by (simp only: and.assoc)
  also have "\<dots> = 1 AND (3::nat)"
    using assms by (simp add: TimingType_contains_def ccsnoise_value)
  finally show ?thesis by (simp add: TimingType_contains_def basic_def)
qed

text \<open>The \<^verbatim>\<open>tt.remove(TimingType.basic)\<close> of \<^verbatim>\<open>types\<close> never raises.\<close>

lemma TimingType_types_total: "\<exists>ts. TimingType_types v = Inr ts"
  using contains_ccsnoise_basic[of v]
  by (auto simp add: TimingType_types_def TimingType_members_def Let_def)

lemma types_unions:
  "TimingType_types 0 = Inr []"
  "TimingType_types (Suc 0) = Inr [basic]"
  "TimingType_types 3 = Inr [ccsnoise]"
  "TimingType_types 4 = Inr [leakage]"
  "TimingType_types 5 = Inr [basic, leakage]"
  "TimingType_types 7 = Inr [ccsnoise, leakage]"
  by (simp_all add: TimingType_types_def TimingType_defs)

text \<open>
  \<open>TimingType_unions\<close> holds the members, is closed under \<^verbatim>\<open>|\<close>, and \<^verbatim>\<open>parse\<close> returns a
  member: no other value reaches the naming functions.
\<close>

lemma unions_closed:
  "a \<in> set TimingType_unions \<Longrightarrow> b \<in> set TimingType_unions \<Longrightarrow> a OR b \<in> set TimingType_unions"
  by (auto simp add: TimingType_unions_def)

lemma members_in_unions: "snd ` set TimingType_members \<subseteq> set TimingType_unions"
  by (simp add: TimingType_unions_def TimingType_defs)

lemma parse_in_members: "snd (TimingType_parse name) \<in> snd ` set TimingType_members"
  by (simp add: TimingType_parse_def TimingType_members_def)

text \<open>On any integer, the naming functions succeed exactly when \<^verbatim>\<open>singular\<close> is true.\<close>

lemma naming_gate_any_value:
  "top_corner_file lib corner v =
     (if TimingType_singular v = Inr True
      then Inr (''timing/'' @ lib @ ''__'' @ corner @ TimingType_file v @ ''.lib.json'')
      else Inl TypeError)"
  using TimingType_types_total[of v]
  by (auto simp add: top_corner_file_def assert_singular_def TimingType_singular_def bind_def)

text \<open>
  C5. For a variant value (a union of members): when it is exactly one of basic, ccsnoise or
  leakage, \<^verbatim>\<open>singular\<close> is true and \<^verbatim>\<open>top_corner_file\<close> and \<^verbatim>\<open>cell_corner_file\<close> return the
  path with the suffix \<^verbatim>\<open>""\<close>, \<^verbatim>\<open>"_ccsnoise"\<close> or \<^verbatim>\<open>"_pwrlkg"\<close>; otherwise \<^verbatim>\<open>singular\<close> is false
  and both functions raise.
\<close>

theorem file_naming_singular_gate:
  "v \<in> set TimingType_unions \<Longrightarrow>
   (if v = basic \<or> v = ccsnoise \<or> v = leakage
    then TimingType_singular v = Inr True
       \<and> top_corner_file lib corner v =
           Inr (''timing/'' @ lib @ ''__'' @ corner
                @ (if v = basic then '''' else if v = ccsnoise then ''_ccsnoise'' else ''_pwrlkg'')
                @ ''.lib.json'')
       \<and> cell_corner_file parse_size lib cell corner v =
           Inr (''cells/''
                @ (case parse_size cell of
                     Some suffix \<Rightarrow> drop_last (length suffix) cell
                   | None \<Rightarrow> cell)
                @ ''/'' @ lib @ ''__'' @ cell @ ''__'' @ corner
                @ (if v = basic then '''' else if v = ccsnoise then ''_ccsnoise'' else ''_pwrlkg'')
                @ ''.lib.json'')
    else TimingType_singular v = Inr False
       \<and> top_corner_file lib corner v = Inl TypeError
       \<and> cell_corner_file parse_size lib cell corner v = Inl TypeError)"
  unfolding TimingType_unions_def
  by (auto simp add: types_unions TimingType_singular_def top_corner_file_def
      cell_corner_file_def assert_singular_def bind_def TimingType_file_def
      basic_def ccsnoise_def leakage_def)

theorem file_naming_singular_gate_witness:
  "ccsnoise \<in> set TimingType_unions
   \<and> top_corner_file ''sky130_fd_sc_hd'' ''ff_100C_1v65'' ccsnoise =
       Inr ''timing/sky130_fd_sc_hd__ff_100C_1v65_ccsnoise.lib.json''
   \<and> cell_corner_file (\<lambda>s. Some ''_1'') ''sky130_fd_sc_hd'' ''a2111o_1'' ''ff_100C_1v65'' ccsnoise =
       Inr ''cells/a2111o/sky130_fd_sc_hd__a2111o_1__ff_100C_1v65_ccsnoise.lib.json''
   \<and> (basic OR leakage) \<in> set TimingType_unions
   \<and> top_corner_file ''sky130_fd_sc_hd'' ''ff_100C_1v65'' (basic OR leakage) = Inl TypeError"
  using
    file_naming_singular_gate [of ccsnoise "''sky130_fd_sc_hd''" "''ff_100C_1v65''"
      "\<lambda>s. Some ''_1''" "''a2111o_1''"]
    file_naming_singular_gate [of "basic OR leakage" "''sky130_fd_sc_hd''" "''ff_100C_1v65''"
      "\<lambda>s. Some ''_1''" "''a2111o_1''"]
  by (simp add: TimingType_unions_def basic_def ccsnoise_def leakage_def drop_last_def)

text \<open>
  C9. \<^verbatim>\<open>TimingType.file\<close> has a value on every integer: \<^verbatim>\<open>"_ccsnoise"\<close> exactly on ccsnoise,
  \<^verbatim>\<open>"_pwrlkg"\<close> exactly on leakage and \<^verbatim>\<open>""\<close> on every other value, the unions
  \<^verbatim>\<open>basic|leakage\<close> and \<^verbatim>\<open>ccsnoise|leakage\<close> among them; these unions are not singular and
  it is the naming functions that reject them.
\<close>

theorem TimingType_file_total:
  "(TimingType_file v = ''_ccsnoise'') = (v = ccsnoise)
   \<and> (TimingType_file v = ''_pwrlkg'') = (v = leakage)
   \<and> (TimingType_file v = '''') = (v \<noteq> ccsnoise \<and> v \<noteq> leakage)
   \<and> TimingType_file (basic OR leakage) = ''''
   \<and> TimingType_file (ccsnoise OR leakage) = ''''
   \<and> TimingType_singular (basic OR leakage) = Inr False
   \<and> TimingType_singular (ccsnoise OR leakage) = Inr False
   \<and> top_corner_file lib corner (basic OR leakage) = Inl TypeError
   \<and> cell_corner_file parse_size lib cell corner (ccsnoise OR leakage) = Inl TypeError"
  by (simp add: TimingType_file_def TimingType_singular_def TimingType_types_def
      TimingType_defs bind_def top_corner_file_def cell_corner_file_def assert_singular_def)

lemma endswith_last: "endswith s suf \<Longrightarrow> suf \<noteq> [] \<Longrightarrow> s \<noteq> [] \<and> last s = last suf"
  unfolding endswith_def
  by (metis append_take_drop_id last_appendR le_zero_eq length_0_conv)

text \<open>
  C6. \<open>basic\<close> is contained in \<open>ccsnoise\<close>; \<^verbatim>\<open>parse(x + "_ccsnoise")\<close> is \<open>(x, ccsnoise)\<close> and
  \<^verbatim>\<open>parse(x + "_pwrlkg")\<close> is \<open>(x, leakage)\<close> for every \<open>x\<close>; a name ending in neither suffix
  comes back unchanged with \<open>basic\<close>.
\<close>

theorem TimingType_parse_suffixes:
  "TimingType_contains basic ccsnoise
   \<and> TimingType_parse (x @ ''_ccsnoise'') = (x, ccsnoise)
   \<and> TimingType_parse (x @ ''_pwrlkg'') = (x, leakage)
   \<and> (\<not> endswith name ''_ccsnoise'' \<and> \<not> endswith name ''_pwrlkg''
        \<longrightarrow> TimingType_parse name = (name, basic))"
proof -
  have a: "TimingType_contains basic ccsnoise"
    by (simp add: TimingType_contains_def basic_def ccsnoise_def)
  have b: "TimingType_parse (x @ ''_ccsnoise'') = (x, ccsnoise)"
    by (simp add: TimingType_parse_def endswith_def drop_last_def)
  have "\<not> endswith (x @ ''_pwrlkg'') ''_ccsnoise''"
    using endswith_last[of "x @ ''_pwrlkg''" "''_ccsnoise''"] by auto
  then have c: "TimingType_parse (x @ ''_pwrlkg'') = (x, leakage)"
    by (simp add: TimingType_parse_def drop_last_def) (simp add: endswith_def)
  have d: "\<not> endswith name ''_ccsnoise'' \<and> \<not> endswith name ''_pwrlkg''
        \<longrightarrow> TimingType_parse name = (name, basic)"
    by (simp add: TimingType_parse_def)
  from a b c d show ?thesis by blast
qed

theorem TimingType_parse_suffixes_witness:
  "\<not> endswith ''ff_100C_1v65'' ''_ccsnoise'' \<and> \<not> endswith ''ff_100C_1v65'' ''_pwrlkg''
   \<and> TimingType_parse ''ff_100C_1v65'' = (''ff_100C_1v65'', basic)
   \<and> TimingType_parse ''ff_100C_1v65_ccsnoise'' = (''ff_100C_1v65'', ccsnoise)
   \<and> TimingType_parse ''ff_100C_1v65_pwrlkg'' = (''ff_100C_1v65'', leakage)"
  using TimingType_parse_suffixes [of "''ff_100C_1v65''" "''ff_100C_1v65''"]
  by (simp add: endswith_def)

section \<open>Properties of the numeric formatter\<close>

lemma WIDTH_value: "WIDTH = 12" by (simp add: WIDTH_def)

lemma pad_zeros_eq: "pad_zeros s = s @ replicate (WIDTH - length s) CHR ''0''"
proof (induction s rule: pad_zeros.induct)
  case (1 s)
  show ?case
  proof (cases "length s < WIDTH")
    case True
    then have "WIDTH - length s = Suc (WIDTH - length (s @ ''0''))" by simp
    with 1 True show ?thesis
      by (subst pad_zeros.simps) simp
  next
    case False
    then show ?thesis by (subst pad_zeros.simps) simp
  qed
qed

lemma pad_mantissa_eq:
  "pad_mantissa a b = a @ replicate (WIDTH - (length a + length b + 1)) CHR ''0''"
proof (induction a b rule: pad_mantissa.induct)
  case (1 a b)
  show ?case
  proof (cases "length a + length b + 1 < WIDTH")
    case True
    then have "WIDTH - (length a + length b + 1) = Suc (WIDTH - (length (a @ ''0'') + length b + 1))"
      by simp
    with 1 True show ?thesis
      by (subst pad_mantissa.simps) simp
  next
    case False
    then show ?thesis by (subst pad_mantissa.simps) simp
  qed
qed

lemma digit_char_set: "d < 10 \<Longrightarrow> digit_char d \<in> set ''0123456789''"
  unfolding digit_char_def by (rule nth_mem) simp

lemma str_nat_digits: "set (str_nat n) \<subseteq> set ''0123456789''"
proof (induction n rule: str_nat.induct)
  case (1 n)
  show ?case
  proof (cases "n < 10")
    case True
    then show ?thesis using digit_char_set[of n] by (subst str_nat.simps) simp
  next
    case False
    have "n mod 10 < 10" by simp
    with 1 False digit_char_set[of "n mod 10"] show ?thesis
      by (subst str_nat.simps) simp
  qed
qed

lemma str_nat_nonempty: "str_nat n \<noteq> []"
  by (subst str_nat.simps) simp

lemma str_nat_no: "c \<notin> set ''0123456789'' \<Longrightarrow> c \<notin> set (str_nat n)"
  using str_nat_digits[of n] by blast

lemma str_int_plain: "CHR ''e'' \<notin> set (str_int i)" "CHR ''.'' \<notin> set (str_int i)"
  by (simp_all add: str_int_def str_nat_no)

lemma split_nonempty: "split sep s \<noteq> []"
  by (induction s) (auto split: list.splits)

lemma length_split: "length (split sep s) = Suc (length (filter (\<lambda>c. c = sep) s))"
  by (induction s) (auto split: list.splits simp add: split_nonempty)

lemma split_no_sep: "sep \<notin> set s \<Longrightarrow> split sep s = [s]"
  by (induction s) auto

lemma split_two:
  "sep \<in> set s \<Longrightarrow> length (filter (\<lambda>c. c = sep) s) \<le> 1 \<Longrightarrow>
   \<exists>a b. split sep s = [a, b] \<and> s = a @ sep # b"
proof (induction s)
  case Nil
  then show ?case by simp
next
  case (Cons c cs)
  show ?case
  proof (cases "c = sep")
    case True
    with Cons.prems have "sep \<notin> set cs" by (auto simp add: filter_empty_conv)
    with True show ?thesis by (simp add: split_no_sep)
  next
    case False
    with Cons obtain a b where "split sep cs = [a, b]" "cs = a @ sep # b" by auto
    with False show ?thesis by simp
  qed
qed

lemma liberty_float_int:
  "liberty_float (PyInt n) =
     Inr (if length (str_int n) < 12
          then str_int n @ ''.'' @ replicate (11 - length (str_int n)) CHR ''0''
          else str_int n)"
  by (simp add: liberty_float_def Let_def str_int_plain pad_zeros_eq WIDTH_value)

lemma liberty_float_width_text:
  assumes "length (filter (\<lambda>c. c = CHR ''e'') (json_dumps x)) \<le> 1"
  shows "\<exists>out. liberty_float x = Inr out \<and> WIDTH \<le> length out"
proof (cases "CHR ''e'' \<in> set (json_dumps x)")
  case True
  from split_two[OF True assms] obtain a b where
    ab: "split CHR ''e'' (json_dumps x) = [a, b]" by blast
  show ?thesis
    using True ab by (simp add: liberty_float_def Let_def pad_mantissa_eq)
next
  case False
  then show ?thesis
    by (simp add: liberty_float_def Let_def pad_zeros_eq)
qed

lemma json_dumps_float_e:
  "length (filter (\<lambda>c. c = CHR ''e'') r) \<le> 1 \<Longrightarrow>
   length (filter (\<lambda>c. c = CHR ''e'') (json_dumps (PyFloat r))) \<le> 1"
  by simp

lemma json_dumps_int_e: "length (filter (\<lambda>c. c = CHR ''e'') (json_dumps (PyInt n))) \<le> 1"
proof -
  have "filter (\<lambda>c. c = CHR ''e'') (str_int n) = []"
    using str_int_plain(1)[of n] by (auto simp add: filter_empty_conv)
  then show ?thesis by simp
qed

text \<open>
  C4, as the code has it. The rendering of every integer, and of every float whose text has
  at most one exponent marker (as the text of every float has), is at least \<open>WIDTH = 12\<close>
  characters long. An integer whose decimal text is shorter than \<open>WIDTH\<close> gets a decimal
  point and then zeros; one whose text already has \<open>WIDTH\<close> characters or more is returned
  as it is, with no decimal point (the guard \<^verbatim>\<open>if len(s) < WIDTH: s += '.'\<close>). The three
  examples of the docstring hold.
\<close>

theorem liberty_float_width:
  "(\<exists>out. liberty_float (PyInt n) = Inr out \<and> WIDTH \<le> length out)
   \<and> (length (filter (\<lambda>c. c = CHR ''e'') r) \<le> 1 \<longrightarrow>
        (\<exists>out. liberty_float (PyFloat r) = Inr out \<and> WIDTH \<le> length out))
   \<and> WIDTH = 12
   \<and> (length (str_int n) < WIDTH \<longrightarrow>
        liberty_float (PyInt n) =
          Inr (str_int n @ ''.'' @ replicate (WIDTH - 1 - length (str_int n)) CHR ''0''))
   \<and> (WIDTH \<le> length (str_int n) \<longrightarrow> liberty_float (PyInt n) = Inr (str_int n))
   \<and> liberty_float (PyFloat ''1.5'') = Inr ''1.5000000000''
   \<and> liberty_float (PyFloat ''1e+20'') = Inr ''1.000000e+20''
   \<and> liberty_float (PyInt 1) = Inr ''1.0000000000''"
proof -
  have a: "\<exists>out. liberty_float (PyInt n) = Inr out \<and> WIDTH \<le> length out"
    by (rule liberty_float_width_text[OF json_dumps_int_e])
  have b: "length (filter (\<lambda>c. c = CHR ''e'') r) \<le> 1 \<longrightarrow>
        (\<exists>out. liberty_float (PyFloat r) = Inr out \<and> WIDTH \<le> length out)"
    using liberty_float_width_text[OF json_dumps_float_e] by blast
  have c: "length (str_int n) < WIDTH \<longrightarrow>
        liberty_float (PyInt n) =
          Inr (str_int n @ ''.'' @ replicate (WIDTH - 1 - length (str_int n)) CHR ''0'')"
    by (simp add: liberty_float_int WIDTH_value)
  have d: "WIDTH \<le> length (str_int n) \<longrightarrow> liberty_float (PyInt n) = Inr (str_int n)"
    by (simp add: liberty_float_int WIDTH_value)
  have e1: "liberty_float (PyFloat ''1.5'') = Inr ''1.5000000000''"
    by (simp add: liberty_float_def pad_zeros_eq WIDTH_value eval_nat_numeral)
  have e2: "liberty_float (PyFloat ''1e+20'') = Inr ''1.000000e+20''"
    by (simp add: liberty_float_def pad_mantissa_eq WIDTH_value eval_nat_numeral)
  have e3: "liberty_float (PyInt 1) = Inr ''1.0000000000''"
    by (simp add: liberty_float_int str_int_def str_nat.simps digit_char_def eval_nat_numeral)
  from a b c d e1 e2 e3 WIDTH_value show ?thesis by blast
qed

lemma str_int_42: "str_int 42 = ''42''"
  by (simp add: str_int_def str_nat.simps digit_char_def)

lemma str_int_13: "str_int 1234567890123 = ''1234567890123''"
  by (simp add: str_int_def str_nat.simps digit_char_def)

theorem liberty_float_width_witness:
  "length (filter (\<lambda>c. c = CHR ''e'') ''1.9208818e-02'') \<le> 1
   \<and> (\<exists>out. liberty_float (PyFloat ''1.9208818e-02'') = Inr out \<and> WIDTH \<le> length out)
   \<and> length (str_int 42) < WIDTH
   \<and> liberty_float (PyInt 42) = Inr ''42.000000000''
   \<and> WIDTH \<le> length (str_int 1234567890123)
   \<and> liberty_float (PyInt 1234567890123) = Inr ''1234567890123''"
proof -
  have h1: "length (filter (\<lambda>c. c = CHR ''e'') ''1.9208818e-02'') \<le> 1" by simp
  have h2: "length (str_int 42) < WIDTH" by (simp add: str_int_42 WIDTH_value)
  have h3: "WIDTH \<le> length (str_int 1234567890123)" by (simp add: str_int_13 WIDTH_value)
  from liberty_float_width [of 42 "''1.9208818e-02''"] h1 h2
  have a: "\<exists>out. liberty_float (PyFloat ''1.9208818e-02'') = Inr out \<and> WIDTH \<le> length out"
    and b: "liberty_float (PyInt 42) =
          Inr (str_int 42 @ ''.'' @ replicate (WIDTH - 1 - length (str_int 42)) CHR ''0'')"
    by blast+
  from liberty_float_width [of 1234567890123 "[]"] h3
  have c: "liberty_float (PyInt 1234567890123) = Inr (str_int 1234567890123)" by blast
  have b': "liberty_float (PyInt 42) = Inr ''42.000000000''"
    using b by (simp add: str_int_42 WIDTH_value eval_nat_numeral)
  have c': "liberty_float (PyInt 1234567890123) = Inr ''1234567890123''"
    using c by (simp only: str_int_13)
  from h1 h2 h3 a b' c' show ?thesis by blast
qed

text \<open>
  The claim's "every integer input is rendered with a trailing decimal point" fails on an
  integer of twelve digits: it is returned without a decimal point.
\<close>

theorem liberty_float_wide_int_counterexample:
  "liberty_float (PyInt 123456789012) = Inr ''123456789012''
   \<and> CHR ''.'' \<notin> set ''123456789012''"
  by (simp add: liberty_float_int str_int_def str_nat.simps digit_char_def)

section \<open>Properties of the list emitter\<close>

lemma count_types_le:
  "length (filter (\<lambda>i. type_of i = TFloat) l) + length (filter (\<lambda>i. type_of i = TInt) l)
     \<le> length l"
  by (induction l) auto

lemma count_float_int_all:
  "(length (filter (\<lambda>i. type_of i = TFloat) l) + length (filter (\<lambda>i. type_of i = TInt) l)
      = length l) = list_all (\<lambda>x. is_float x \<or> is_int x) l"
proof (induction l)
  case Nil
  then show ?case by simp
next
  case (Cons x xs)
  show ?case using Cons count_types_le[of xs]
    by (auto simp add: is_float_def is_int_def)
qed

lemma count_int_all:
  "(length (filter (\<lambda>i. type_of i = TInt) l) = length l) = list_all is_int l"
proof (induction l)
  case Nil
  then show ?case by simp
next
  case (Cons x xs)
  have "length (filter (\<lambda>i. type_of i = TInt) xs) \<noteq> Suc (length xs)"
    using length_filter_le[of "\<lambda>i. type_of i = TInt" xs] by linarith
  with Cons show ?case by (auto simp add: is_int_def)
qed

lemma count_pos_ex: "(0 < length (filter P l)) = list_ex P l"
  by (induction l) auto

text \<open>The homogeneity check, case by case.\<close>

lemma liberty_join_cases:
  "liberty_join l =
     (if list_ex is_float l then
        (if list_all (\<lambda>x. is_float x \<or> is_int x) l then Inr FloatJoin else Inl AssertionError)
      else if list_ex is_int l then
        (if list_all is_int l then Inr IntJoin else Inl AssertionError)
      else Inl ValueError)"
proof -
  have f: "(0 < length (filter (\<lambda>i. type_of i = TFloat) l)) = list_ex is_float l"
    using count_pos_ex[of "\<lambda>i. type_of i = TFloat" l] by (simp add: is_float_def[abs_def])
  have i: "(0 < length (filter (\<lambda>i. type_of i = TInt) l)) = list_ex is_int l"
    using count_pos_ex[of "\<lambda>i. type_of i = TInt" l] by (simp add: is_int_def[abs_def])
  show ?thesis
    unfolding liberty_join_def Let_def f i count_float_int_all count_int_all by simp
qed

lemma map_err_Inr:
  "map f l = map Inr outs \<Longrightarrow> map_err f l = Inr outs"
  by (induction l arbitrary: outs) (auto simp add: bind_def)

lemma liberty_float_number_ok:
  assumes "is_float x \<or> is_int x"
    and "length (filter (\<lambda>c. c = CHR ''e'') (json_dumps x)) \<le> 1"
  shows "\<exists>out. liberty_float x = Inr out"
  using liberty_float_width_text[OF assms(2)] by blast

lemma map_liberty_float_ok:
  "list_all (\<lambda>x. length (filter (\<lambda>c. c = CHR ''e'') (json_dumps x)) \<le> 1) l \<Longrightarrow>
   \<exists>outs. map liberty_float l = map Inr outs"
proof (induction l)
  case Nil
  then show ?case by simp
next
  case (Cons x xs)
  then obtain outs where o: "map liberty_float xs = map Inr outs" by auto
  from Cons.prems obtain out where "liberty_float x = Inr out"
    using liberty_float_width_text[of x] by auto
  with o have "map liberty_float (x # xs) = map Inr (out # outs)" by simp
  then show ?case by blast
qed

text \<open>
  C8. A flat list with a float in which every element is a float or an int gets the float
  closure, and every element is rendered by \<^verbatim>\<open>liberty_float\<close>; a non-empty list of ints gets
  the plain closure and is rendered as the integers joined by \<^verbatim>\<open>", "\<close>; every other list
  raises (\<^verbatim>\<open>AssertionError\<close> from the homogeneity assertion, or \<^verbatim>\<open>ValueError\<close> when the
  list has neither a float nor an int).
\<close>

theorem liberty_join_homogeneity:
  "(list_ex is_float l \<and> list_all (\<lambda>x. is_float x \<or> is_int x) l \<longrightarrow>
      liberty_join l = Inr FloatJoin
      \<and> (list_all (\<lambda>x. length (filter (\<lambda>c. c = CHR ''e'') (json_dumps x)) \<le> 1) l \<longrightarrow>
           (\<exists>outs. map liberty_float l = map Inr outs
              \<and> liberty_list k (Flat l) i =
                  Inr [indent (length i) @ k @ ''('' @ [CHR 0x22] @ join '', '' outs
                       @ [CHR 0x22] @ '');''])))
   \<and> (l \<noteq> [] \<and> list_all is_int l \<longrightarrow>
      liberty_join l = Inr IntJoin
      \<and> liberty_list k (Flat l) i =
          Inr [indent (length i) @ k @ ''('' @ [CHR 0x22] @ join '', '' (map py_str l)
               @ [CHR 0x22] @ '');''])
   \<and> (\<not> (list_ex is_float l \<and> list_all (\<lambda>x. is_float x \<or> is_int x) l)
        \<and> \<not> (l \<noteq> [] \<and> list_all is_int l) \<longrightarrow>
      liberty_join l = Inl AssertionError \<or> liberty_join l = Inl ValueError)"
proof -
  have a: "liberty_join l = Inr FloatJoin"
    if "list_ex is_float l" "list_all (\<lambda>x. is_float x \<or> is_int x) l"
    using that by (simp add: liberty_join_cases)
  have b: "\<exists>outs. map liberty_float l = map Inr outs
              \<and> liberty_list k (Flat l) i =
                  Inr [indent (length i) @ k @ ''('' @ [CHR 0x22] @ join '', '' outs
                       @ [CHR 0x22] @ '');'']"
    if "list_ex is_float l" "list_all (\<lambda>x. is_float x \<or> is_int x) l"
      "list_all (\<lambda>x. length (filter (\<lambda>c. c = CHR ''e'') (json_dumps x)) \<le> 1) l"
  proof -
    from map_liberty_float_ok[OF that(3)] obtain outs where
      o: "map liberty_float l = map Inr outs" by blast
    from that(1) have ne: "l \<noteq> []" by auto
    have "liberty_list k (Flat l) i =
            Inr [indent (length i) @ k @ ''('' @ [CHR 0x22] @ join '', '' outs
                 @ [CHR 0x22] @ '');'']"
      using ne a[OF that(1,2)] map_err_Inr[OF o]
      by (cases l) (simp_all add: liberty_list_def bind_def)
    with o show ?thesis by blast
  qed
  have int_no_float: "\<not> list_ex is_float l" if "list_all is_int l"
    using that by (induction l) (auto simp add: is_int_def is_float_def)
  have int_ex: "list_ex is_int l" if "l \<noteq> []" "list_all is_int l"
    using that by (cases l) auto
  have c: "liberty_join l = Inr IntJoin" if "l \<noteq> []" "list_all is_int l"
    using that int_no_float int_ex by (simp add: liberty_join_cases)
  have d: "liberty_list k (Flat l) i =
          Inr [indent (length i) @ k @ ''('' @ [CHR 0x22] @ join '', '' (map py_str l)
               @ [CHR 0x22] @ '');'']" if "l \<noteq> []" "list_all is_int l"
    using that c[OF that] by (cases l) (simp_all add: liberty_list_def bind_def)
  have e: "liberty_join l = Inl AssertionError \<or> liberty_join l = Inl ValueError"
    if "\<not> (list_ex is_float l \<and> list_all (\<lambda>x. is_float x \<or> is_int x) l)"
      "\<not> (l \<noteq> [] \<and> list_all is_int l)"
    using that by (auto simp add: liberty_join_cases)
  from a b c d e show ?thesis by blast
qed

lemma str_int_small:
  "str_int 1 = ''1''" "str_int 2 = ''2''" "str_int 3 = ''3''" "str_int 5 = ''5''"
  "str_int 8 = ''8''" "str_int 10 = ''10''"
  by (simp_all add: str_int_def str_nat.simps digit_char_def)

theorem liberty_join_homogeneity_witness:
  "list_ex is_float [PyInt 5, PyFloat ''1.0'', PyInt 10]
   \<and> list_all (\<lambda>x. is_float x \<or> is_int x) [PyInt 5, PyFloat ''1.0'', PyInt 10]
   \<and> liberty_join [PyInt 5, PyFloat ''1.0'', PyInt 10] = Inr FloatJoin
   \<and> liberty_list ''index_1'' (Flat [PyInt 5, PyFloat ''1.0'', PyInt 10]) [] =
       Inr [''index_1('' @ [CHR 0x22] @ ''5.0000000000, 1.0000000000, 10.000000000''
            @ [CHR 0x22] @ '');'']
   \<and> [PyInt 1, PyInt 5, PyInt 8] \<noteq> [] \<and> list_all is_int [PyInt 1, PyInt 5, PyInt 8]
   \<and> liberty_list ''index_1'' (Flat [PyInt 1, PyInt 5, PyInt 8]) [] =
       Inr [''index_1('' @ [CHR 0x22] @ ''1, 5, 8'' @ [CHR 0x22] @ '');'']
   \<and> liberty_join [PyStr ''a'', PyInt 3] = Inl AssertionError
   \<and> liberty_join [PyStr ''a''] = Inl ValueError"
proof -
  let ?l1 = "[PyInt 5, PyFloat ''1.0'', PyInt 10]"
  let ?l2 = "[PyInt 1, PyInt 5, PyInt 8]"
  have h1: "list_ex is_float ?l1" "list_all (\<lambda>x. is_float x \<or> is_int x) ?l1"
    by (simp_all add: is_float_def is_int_def)
  have h2: "list_all (\<lambda>x. length (filter (\<lambda>c. c = CHR ''e'') (json_dumps x)) \<le> 1) ?l1"
    by (simp add: str_int_small)
  have h3: "?l2 \<noteq> []" "list_all is_int ?l2"
    by (simp_all add: is_int_def)
  have floats: "map liberty_float ?l1 = map Inr [''5.0000000000'', ''1.0000000000'', ''10.000000000'']"
    by (simp add: liberty_float_def str_int_small pad_zeros.simps WIDTH_value)
  from liberty_join_homogeneity [of ?l1 "''index_1''" "[]"] h1 h2
  obtain outs where j1: "liberty_join ?l1 = Inr FloatJoin"
    and o: "map liberty_float ?l1 = map Inr outs"
    and r1: "liberty_list ''index_1'' (Flat ?l1) [] =
               Inr [indent (length ([]::string list)) @ ''index_1'' @ ''('' @ [CHR 0x22]
                    @ join '', '' outs @ [CHR 0x22] @ '');'']"
    by blast
  from o floats have "map Inr outs = (map Inr [''5.0000000000'', ''1.0000000000'', ''10.000000000'']
      :: (error + string) list)"
    by simp
  then have "outs = [''5.0000000000'', ''1.0000000000'', ''10.000000000'']"
    by (simp only: inj_map_eq_map[OF inj_Inr])
  with r1 have r1': "liberty_list ''index_1'' (Flat ?l1) [] =
       Inr [''index_1('' @ [CHR 0x22] @ ''5.0000000000, 1.0000000000, 10.000000000''
            @ [CHR 0x22] @ '');'']"
    by (simp add: indent_def)
  from liberty_join_homogeneity [of ?l2 "''index_1''" "[]"] h3
  have r2: "liberty_list ''index_1'' (Flat ?l2) [] =
       Inr [indent (length ([]::string list)) @ ''index_1'' @ ''('' @ [CHR 0x22]
            @ join '', '' (map py_str ?l2) @ [CHR 0x22] @ '');'']"
    by blast
  have r2': "liberty_list ''index_1'' (Flat ?l2) [] =
       Inr [''index_1('' @ [CHR 0x22] @ ''1, 5, 8'' @ [CHR 0x22] @ '');'']"
    unfolding r2 by (simp add: indent_def str_int_small)
  have e1: "liberty_join [PyStr ''a'', PyInt 3] = Inl AssertionError"
    by (simp add: liberty_join_def)
  have e2: "liberty_join [PyStr ''a''] = Inl ValueError"
    by (simp add: liberty_join_def)
  from h1 h3 j1 r1' r2' e1 e2 show ?thesis by blast
qed

section \<open>Properties of the table branch of liberty\_list\<close>












section \<open>Properties of stripping\<close>

lemma bind_Inr: "bind (Inr x) f = f x"
  by (simp add: bind_def)

lemma bind_Inl: "bind (Inl e) f = Inl e"
  by (simp add: bind_def)

lemma dict_keys_dict_del: "set (dict_keys (dict_del d k)) = set (dict_keys d) - {k}"
  by (auto simp add: dict_keys_def dict_del_def)

lemma fold_delete_keys:
  "set ks \<subseteq> set (dict_keys d) \<Longrightarrow> distinct ks \<Longrightarrow>
   fold_err (\<lambda>k y. py_delitem y k) ks (JDict d) = Inr (JDict (filter (\<lambda>(k, v). k \<notin> set ks) d))"
proof (induction ks arbitrary: d)
  case Nil
  then show ?case by simp
next
  case (Cons k ks)
  have sub: "set ks \<subseteq> set (dict_keys (dict_del d k))"
    using Cons.prems by (auto simp add: dict_keys_dict_del)
  have "fold_err (\<lambda>k y. py_delitem y k) ks (JDict (dict_del d k)) =
          Inr (JDict (filter (\<lambda>(k, v). k \<notin> set ks) (dict_del d k)))"
    using Cons.IH[OF sub] Cons.prems by simp
  moreover have "filter (\<lambda>(k, v). k \<notin> set ks) (dict_del d k) =
          filter (\<lambda>(k', v). k' \<notin> set (k # ks)) d"
    by (induction d) (auto simp add: dict_del_def)
  ultimately show ?case using Cons.prems by (simp add: bind_def)
qed

lemma collect_flags:
  "map_err (\<lambda>k. bind (py_startswith k p) (\<lambda>b. Inr (k, b))) (map JStr ks) =
     Inr (map (\<lambda>s. (JStr s, startswith s p)) ks)"
  by (induction ks) (auto simp add: bind_def)

lemma collected_keys:
  "concat (map (\<lambda>(k, b). case k of JStr s \<Rightarrow> if b then [s] else [] | _ \<Rightarrow> [])
               (map (\<lambda>s. (JStr s, startswith s p)) ks)) = filter (\<lambda>s. startswith s p) ks"
  by (induction ks) auto

text \<open>On a dict, the collect-then-delete loops remove exactly the keys that start with \<^verbatim>\<open>ccsn_\<close>.\<close>

lemma strip_ccsn_keys_dict:
  "strip_ccsn_keys (JDict td) = Inr (JDict (without_ccsn_prefix td))"
proof -
  let ?ks = "remdups (filter (\<lambda>s. startswith s ''ccsn_'') (dict_keys td))"
  have sub: "set ?ks \<subseteq> set (dict_keys td)" by auto
  have flt: "filter (\<lambda>(k, v). k \<notin> set ?ks) td = without_ccsn_prefix td"
    unfolding without_ccsn_prefix_def
    by (rule filter_cong) (force simp add: dict_keys_def)+
  show ?thesis
    unfolding strip_ccsn_keys_def py_iter.simps bind_Inr collect_flags Let_def collected_keys
    using fold_delete_keys[OF sub distinct_remdups] flt by simp
qed

lemma strip_timing_list:
  "list_all is_dict ts \<Longrightarrow>
   strip_timing (JList ts) = Inr (JList (map stripped_timing_element ts))"
proof -
  assume a: "list_all is_dict ts"
  have "map_err strip_ccsn_keys ts = Inr (map stripped_timing_element ts)"
    using a
  proof (induction ts)
    case Nil
    then show ?case by simp
  next
    case (Cons t ts)
    then obtain td where t: "t = JDict td" by (cases t) (auto simp add: is_dict_def)
    with Cons show ?case
      by (simp add: bind_def strip_ccsn_keys_dict stripped_timing_element_def)
  qed
  then show ?thesis by (simp add: strip_timing_def bind_def)
qed

lemma delete_input_voltage:
  "(if k \<in> set (dict_keys pd) then py_delitem (JDict pd) k else Inr (JDict pd)) =
     Inr (JDict (filter (\<lambda>(k', v). k' \<noteq> k) pd))"
proof (cases "k \<in> set (dict_keys pd)")
  case True
  then show ?thesis by (simp add: dict_del_def)
next
  case False
  then have "filter (\<lambda>(k', v). k' \<noteq> k) pd = pd"
    by (force simp add: dict_keys_def filter_id_conv)
  with False show ?thesis by simp
qed

lemma map_of_filter_key:
  "P k \<Longrightarrow> map_of (filter (\<lambda>(k', v). P k') d) k = map_of d k"
  by (induction d) auto

lemma dict_keys_filter:
  "P k \<Longrightarrow> (k \<in> set (dict_keys (filter (\<lambda>(k', v). P k') d))) = (k \<in> set (dict_keys d))"
  by (induction d) (auto simp add: dict_keys_def)

lemma dict_set_map:
  "distinct (dict_keys d) \<Longrightarrow> map_of d k = Some v0 \<Longrightarrow>
   dict_set d k (g v0) = map (\<lambda>(k', v). if k' = k then (k', g v) else (k', v)) d"
proof (induction d)
  case Nil
  then show ?case by simp
next
  case (Cons kv d)
  obtain k' v' where kv: "kv = (k', v')" by (cases kv)
  show ?case
  proof (cases "k' = k")
    case True
    with Cons.prems kv have "k \<notin> fst ` set d" and v0: "v' = v0"
      by (auto simp add: dict_keys_def)
    then have "map (\<lambda>(k', v). if k' = k then (k', g v) else (k', v)) d = d"
      by (induction d) auto
    with True kv v0 show ?thesis by simp
  next
    case False
    with Cons kv show ?thesis by (simp add: dict_keys_def)
  qed
qed

lemma map_no_timing:
  "k \<notin> set (dict_keys d) \<Longrightarrow> map (\<lambda>(k', v). if k' = k then (k', g v) else (k', v)) d = d"
  by (induction d) (auto simp add: dict_keys_def)

lemma distinct_filter_keys:
  "distinct (dict_keys d) \<Longrightarrow> distinct (dict_keys (filter P d))"
  by (simp add: dict_keys_def distinct_map_filter)

text \<open>On a well-shaped pin, the loop body leaves \<open>stripped_pin\<close>.\<close>

lemma strip_pin_dict:
  assumes "pin_shaped (JDict pd)"
  shows "strip_pin (JDict pd) = Inr (JDict (stripped_pin pd))"
proof -
  let ?q = "without_ccsn_prefix (filter (\<lambda>(k, v). k \<noteq> ''input_voltage'') pd)"
  let ?g = "\<lambda>v. case v of JList ts \<Rightarrow> JList (map stripped_timing_element ts) | _ \<Rightarrow> v"
  from assms have dist: "distinct (dict_keys pd)" by (simp add: pin_shaped_def)
  have keep: "\<not> startswith ''timing'' ''ccsn_''" "''timing'' \<noteq> ''input_voltage''"
    by (simp_all add: startswith_def)
  have q_timing: "map_of ?q ''timing'' = map_of pd ''timing''"
  proof -
    have "map_of ?q ''timing'' = map_of (filter (\<lambda>(k, v). k \<noteq> ''input_voltage'') pd) ''timing''"
      unfolding without_ccsn_prefix_def
      by (rule map_of_filter_key[of "\<lambda>k. \<not> startswith k ''ccsn_''"]) (rule keep(1))
    also have "\<dots> = map_of pd ''timing''"
      by (rule map_of_filter_key[of "\<lambda>k. k \<noteq> ''input_voltage''"]) (rule keep(2))
    finally show ?thesis .
  qed
  have q_in: "(''timing'' \<in> set (dict_keys ?q)) = (''timing'' \<in> set (dict_keys pd))"
  proof -
    have "(''timing'' \<in> set (dict_keys ?q)) =
        (''timing'' \<in> set (dict_keys (filter (\<lambda>(k, v). k \<noteq> ''input_voltage'') pd)))"
      unfolding without_ccsn_prefix_def
      by (rule dict_keys_filter[of "\<lambda>k. \<not> startswith k ''ccsn_''"]) (rule keep(1))
    also have "\<dots> = (''timing'' \<in> set (dict_keys pd))"
      by (rule dict_keys_filter[of "\<lambda>k. k \<noteq> ''input_voltage''"]) (rule keep(2))
    finally show ?thesis .
  qed
  have q_dist: "distinct (dict_keys ?q)"
    unfolding without_ccsn_prefix_def using dist by (simp add: distinct_filter_keys)
  have start: "strip_pin (JDict pd) =
      bind (py_in ''timing'' (JDict ?q)) (\<lambda>has_timing.
       if \<not> has_timing then Inr (JDict ?q)
       else bind (py_getitem (JDict ?q) ''timing'') (\<lambda>pin_timing.
            bind (strip_timing pin_timing) (\<lambda>pin_timing'.
              Inr (JDict (dict_set ?q ''timing'' pin_timing')))))"
    unfolding strip_pin_def py_in.simps bind_Inr delete_input_voltage strip_ccsn_keys_dict
    by simp
  have spec: "stripped_pin pd = map (\<lambda>(k', v). if k' = ''timing'' then (k', ?g v) else (k', v)) ?q"
    by (simp add: stripped_pin_def)
  show ?thesis
  proof (cases "map_of pd ''timing''")
    case None
    then have "''timing'' \<notin> set (dict_keys pd)"
      by (simp add: dict_keys_def map_of_eq_None_iff)
    then have nin: "''timing'' \<notin> set (dict_keys ?q)" using q_in by simp
    then show ?thesis
      unfolding start spec by (simp add: bind_Inr map_no_timing)
  next
    case (Some pt)
    with assms obtain ts where pt: "pt = JList ts" and ds: "list_all is_dict ts"
      by (cases pt) (auto simp add: pin_shaped_def)
    from Some have "''timing'' \<in> set (dict_keys pd)"
      by (auto simp add: dict_keys_def dest: map_of_SomeD intro: rev_image_eqI)
    then have isin: "''timing'' \<in> set (dict_keys ?q)" using q_in by simp
    have get: "map_of ?q ''timing'' = Some (JList ts)" using q_timing Some pt by simp
    have upd: "dict_set ?q ''timing'' (JList (map stripped_timing_element ts)) =
        map (\<lambda>(k', v). if k' = ''timing'' then (k', ?g v) else (k', v)) ?q"
      using dict_set_map[OF q_dist get, of ?g] by simp
    show ?thesis
      unfolding start spec
      by (simp add: bind_Inr isin get strip_timing_list[OF ds] upd)
  qed
qed

lemma remove_items:
  "record_shaped d \<Longrightarrow>
   \<exists>items. map_err remove_item d = Inr items \<and> concat items = stripped_record d"
proof (induction d)
  case Nil
  then show ?case by (simp add: stripped_record_def)
next
  case (Cons kv d)
  obtain k v where kv: "kv = (k, v)" by (cases kv)
  from Cons.prems have "record_shaped d" by (simp add: record_shaped_def)
  with Cons.IH obtain items where
    items: "map_err remove_item d = Inr items" "concat items = stripped_record d" by blast
  have tail: "stripped_record ((k, v) # d) =
      (if str_contains ''ccsn_'' k then []
       else if startswith k ''pin ''
            then [(k, case v of JDict pd \<Rightarrow> JDict (stripped_pin pd) | _ \<Rightarrow> v)]
            else [(k, v)]) @ stripped_record d"
    by (simp add: stripped_record_def)
  consider (gone) "str_contains ''ccsn_'' k"
    | (plain) "\<not> str_contains ''ccsn_'' k" "\<not> startswith k ''pin ''"
    | (pin) "\<not> str_contains ''ccsn_'' k" "startswith k ''pin ''"
    by blast
  then show ?case
  proof cases
    case gone
    then have "remove_item (k, v) = Inr []" by (simp add: remove_item_def)
    with gone show ?thesis
      unfolding kv tail using items by (simp add: bind_Inr)
  next
    case plain
    then have "remove_item (k, v) = Inr [(k, v)]" by (simp add: remove_item_def)
    with plain show ?thesis
      unfolding kv tail using items by (simp add: bind_Inr)
  next
    case pin
    with Cons.prems kv have "pin_shaped v" by (simp add: record_shaped_def)
    then obtain pd where v: "v = JDict pd" by (cases v) (auto simp add: pin_shaped_def)
    with \<open>pin_shaped v\<close> have sp: "strip_pin v = Inr (JDict (stripped_pin pd))"
      using strip_pin_dict by simp
    from pin sp have "remove_item (k, v) = Inr [(k, JDict (stripped_pin pd))]"
      by (simp add: remove_item_def bind_Inr)
    with pin show ?thesis
      unfolding kv tail using items v by (simp add: bind_Inr)
  qed
qed

text \<open>
  C2, as the code has it. On a record in which each pin is a dict whose \<^verbatim>\<open>timing\<close> is a list of
  dicts, \<^verbatim>\<open>remove_ccsnoise\<close> returns and leaves \<open>stripped_record\<close>: at the top level the keys that
  contain \<^verbatim>\<open>ccsn_\<close> anywhere are removed (not only those that start with it); in each
  \<^verbatim>\<open>"pin "\<close> entry the key \<^verbatim>\<open>input_voltage\<close> and the keys starting with \<^verbatim>\<open>ccsn_\<close>, and in each
  element of the pin's \<^verbatim>\<open>timing\<close> the keys starting with \<^verbatim>\<open>ccsn_\<close>; every other key keeps its place
  and its value. \<^verbatim>\<open>generate\<close> applies it exactly when the output variant is not ccsnoise.
\<close>

theorem remove_ccsnoise_strips:
  "record_shaped d \<Longrightarrow>
   remove_ccsnoise (JDict d) cellname = Inr (JDict (stripped_record d))
   \<and> (ocorner_type \<noteq> ccsnoise \<longrightarrow>
        strip_unless_ccsnoise ocorner_type (JDict d) cellname = Inr (JDict (stripped_record d)))
   \<and> strip_unless_ccsnoise ccsnoise (JDict d) cellname = Inr (JDict d)"
proof -
  assume "record_shaped d"
  from remove_items[OF this] obtain items where
    "map_err remove_item d = Inr items" "concat items = stripped_record d" by blast
  then have "remove_ccsnoise (JDict d) cellname = Inr (JDict (stripped_record d))"
    by (simp add: remove_ccsnoise_def bind_Inr)
  then show ?thesis by (simp add: strip_unless_ccsnoise_def)
qed

theorem remove_ccsnoise_strips_witness:
  "record_shaped
     [(''area'', JFloat ''1.25''), (''ccsn_x'', JInt 2), (''input_voltage'', JStr ''top''),
      (''pin A'', JDict [(''input_voltage'', JStr ''x''), (''ccsn_first_stage'', JDict []),
                        (''capacitance'', JFloat ''0.1''),
                        (''timing'', JList [JDict [(''ccsn_last_stage'', JInt 1),
                                                   (''related_pin'', JStr ''B''),
                                                   (''input_voltage'', JInt 0)]])])]
   \<and> remove_ccsnoise (JDict
     [(''area'', JFloat ''1.25''), (''ccsn_x'', JInt 2), (''input_voltage'', JStr ''top''),
      (''pin A'', JDict [(''input_voltage'', JStr ''x''), (''ccsn_first_stage'', JDict []),
                        (''capacitance'', JFloat ''0.1''),
                        (''timing'', JList [JDict [(''ccsn_last_stage'', JInt 1),
                                                   (''related_pin'', JStr ''B''),
                                                   (''input_voltage'', JInt 0)]])])]) ''a2111o_1''
     = Inr (JDict
     [(''area'', JFloat ''1.25''), (''input_voltage'', JStr ''top''),
      (''pin A'', JDict [(''capacitance'', JFloat ''0.1''),
                        (''timing'', JList [JDict [(''related_pin'', JStr ''B''),
                                                   (''input_voltage'', JInt 0)]])])])"
proof -
  let ?d = "[(''area'', JFloat ''1.25''), (''ccsn_x'', JInt 2), (''input_voltage'', JStr ''top''),
      (''pin A'', JDict [(''input_voltage'', JStr ''x''), (''ccsn_first_stage'', JDict []),
                        (''capacitance'', JFloat ''0.1''),
                        (''timing'', JList [JDict [(''ccsn_last_stage'', JInt 1),
                                                   (''related_pin'', JStr ''B''),
                                                   (''input_voltage'', JInt 0)]])])]"
  have shaped: "record_shaped ?d"
    by (simp add: record_shaped_def pin_shaped_def is_dict_def dict_keys_def startswith_def)
  have spec: "stripped_record ?d =
     [(''area'', JFloat ''1.25''), (''input_voltage'', JStr ''top''),
      (''pin A'', JDict [(''capacitance'', JFloat ''0.1''),
                        (''timing'', JList [JDict [(''related_pin'', JStr ''B''),
                                                   (''input_voltage'', JInt 0)]])])]"
    by (simp add: stripped_record_def stripped_pin_def stripped_timing_element_def
        without_ccsn_prefix_def startswith_def)
  from remove_ccsnoise_strips[OF shaped, of "''a2111o_1''" basic]
  have "remove_ccsnoise (JDict ?d) ''a2111o_1'' = Inr (JDict (stripped_record ?d))" by blast
  with shaped spec show ?thesis by simp
qed

text \<open>
  The claim has the top level lose the keys "prefixed with \<^verbatim>\<open>ccsn_\<close>" and every other key kept.
  A top-level key that only contains \<^verbatim>\<open>ccsn_\<close> is removed as well.
\<close>

theorem remove_ccsnoise_substring_counterexample:
  "\<not> startswith ''lu_table_template ccsn_dc'' ''ccsn_''
   \<and> remove_ccsnoise
        (JDict [(''lu_table_template ccsn_dc'', JDict [(''variable_1'', JStr ''input_voltage'')]),
                (''technology'', JStr ''cmos'')]) ''library''
     = Inr (JDict [(''technology'', JStr ''cmos'')])"
  by (simp add: remove_ccsnoise_def remove_item_def bind_def startswith_def)

section \<open>Properties of the merge of the corner's record over the common record\<close>

lemma map_of_dict_set: "map_of (dict_set d k v) = (map_of d)(k \<mapsto> v)"
  by (induction d) (auto simp add: fun_eq_iff)

lemma dict_set_new: "k \<notin> set (dict_keys d) \<Longrightarrow> dict_set d k v = d @ [(k, v)]"
  by (induction d) (auto simp add: dict_keys_def)

text \<open>The first loop returns the common record as it was loaded: its assertion cannot fail.\<close>

lemma load_common_append:
  "distinct (dict_keys (acc @ d)) \<Longrightarrow> load_common acc d = Inr (acc @ d)"
proof (induction d arbitrary: acc)
  case Nil
  then show ?case by simp
next
  case (Cons kv d)
  obtain k v where kv: "kv = (k, v)" by (cases kv)
  from Cons.prems kv have new: "k \<notin> set (dict_keys acc)"
    by (auto simp add: dict_keys_def)
  from Cons.prems kv have "distinct (dict_keys ((acc @ [(k, v)]) @ d))"
    by (simp add: dict_keys_def)
  from Cons.IH[OF this] new kv show ?case
    by (simp add: dict_set_new)
qed

text \<open>The second loop, from any accumulated record and console.\<close>

lemma merge_top_general:
  "distinct (dict_keys crn) \<Longrightarrow>
   merge_top (acc, out) crn =
     (fold (\<lambda>(k, v) a. dict_set a k v) crn acc,
      out @ concat (map (\<lambda>(k, v). case map_of acc k of
                                    Some old \<Rightarrow> [Overwriting k v old]
                                  | None \<Rightarrow> []) crn))"
proof (induction crn arbitrary: acc out)
  case Nil
  then show ?case by simp
next
  case (Cons kv crn)
  obtain k v where kv: "kv = (k, v)" by (cases kv)
  from Cons.prems kv have dist: "distinct (dict_keys crn)" and new: "k \<notin> set (dict_keys crn)"
    by (simp_all add: dict_keys_def)
  have same: "map (\<lambda>(k', v'). case map_of (dict_set acc k v) k' of
                                    Some old \<Rightarrow> [Overwriting k' v' old]
                                  | None \<Rightarrow> []) crn =
              map (\<lambda>(k', v'). case map_of acc k' of
                                    Some old \<Rightarrow> [Overwriting k' v' old]
                                  | None \<Rightarrow> []) crn"
  proof (rule map_cong[OF refl])
    fix x assume x: "x \<in> set crn"
    obtain k' v' where xx: "x = (k', v')" by (cases x)
    with x new have "k' \<noteq> k" by (force simp add: dict_keys_def)
    then show "(case x of (k', v') \<Rightarrow> case map_of (dict_set acc k v) k' of
                                    Some old \<Rightarrow> [Overwriting k' v' old]
                                  | None \<Rightarrow> []) =
               (case x of (k', v') \<Rightarrow> case map_of acc k' of
                                    Some old \<Rightarrow> [Overwriting k' v' old]
                                  | None \<Rightarrow> [])"
      by (simp add: xx map_of_dict_set)
  qed
  show ?case
    unfolding kv using Cons.IH[OF dist] by (simp add: same)
qed

lemma map_of_fold_set:
  "distinct (dict_keys crn) \<Longrightarrow>
   map_of (fold (\<lambda>(k, v) a. dict_set a k v) crn acc) = map_of acc ++ map_of crn"
proof (induction crn arbitrary: acc)
  case Nil
  then show ?case by simp
next
  case (Cons kv crn)
  obtain k v where kv: "kv = (k, v)" by (cases kv)
  from Cons.prems kv have dist: "distinct (dict_keys crn)" and new: "k \<notin> set (dict_keys crn)"
    by (simp_all add: dict_keys_def)
  from new have none: "map_of crn k = None"
    by (simp add: dict_keys_def map_of_eq_None_iff)
  have "map_of (fold (\<lambda>(k, v) a. dict_set a k v) (kv # crn) acc) =
          map_of (dict_set acc k v) ++ map_of crn"
    unfolding kv using Cons.IH[OF dist, of "dict_set acc k v"] by simp
  also have "\<dots> = (map_of acc)(k \<mapsto> v) ++ map_of crn"
    by (simp only: map_of_dict_set)
  also have "\<dots> = map_of acc ++ map_of (kv # crn)"
    unfolding kv using none by (auto simp add: fun_eq_iff map_add_def split: option.splits)
  finally show ?case .
qed

text \<open>
  C7. With the common record and the corner's record as dicts (distinct keys): loading the
  common record cannot fail; the merged record gives every key of the corner's record the
  corner's value and every other key of the common record the common value; the console gets
  one \<open>Overwriting\<close> event for each key of the corner's record that the common record has, and
  no other; and when both files exist, the naming succeeds and nothing is stripped,
  \<^verbatim>\<open>generate\<close>'s loading returns the merged record, shared keys or not.
\<close>

theorem merge_corner_over_common:
  "distinct (dict_keys common) \<and> distinct (dict_keys crn) \<Longrightarrow>
   load_common [] common = Inr common
   \<and> (\<forall>k. map_of (fst (merge_top (common, []) crn)) k =
            (case map_of crn k of Some v \<Rightarrow> Some v | None \<Rightarrow> map_of common k))
   \<and> snd (merge_top (common, []) crn) =
        concat (map (\<lambda>(k, v). case map_of common k of
                                 Some old \<Rightarrow> [Overwriting k v old]
                               | None \<Rightarrow> []) crn)
   \<and> (fs (path_join (path_join library_dir ''timing'') (lib @ ''__common.lib.json''))
          = Some (JDict common)
        \<and> fs (path_join library_dir (''timing/'' @ lib @ ''__'' @ corner @ ''_ccsnoise.lib.json''))
          = Some (JDict crn)
      \<longrightarrow> load_top_data fs library_dir lib corner ccsnoise ccsnoise =
            Inr (JDict (fst (merge_top (common, []) crn)),
                 [path_join (path_join library_dir ''timing'') (lib @ ''__common.lib.json''),
                  path_join library_dir (''timing/'' @ lib @ ''__'' @ corner @ ''_ccsnoise.lib.json'')],
                 snd (merge_top (common, []) crn)))"
proof -
  assume d: "distinct (dict_keys common) \<and> distinct (dict_keys crn)"
  then have dc: "distinct (dict_keys common)" and dt: "distinct (dict_keys crn)" by simp_all
  have a: "load_common [] common = Inr common"
    using load_common_append[of "[]" common] dc by simp
  have m: "merge_top (common, []) crn =
     (fold (\<lambda>(k, v) a. dict_set a k v) crn common,
      concat (map (\<lambda>(k, v). case map_of common k of
                                    Some old \<Rightarrow> [Overwriting k v old]
                                  | None \<Rightarrow> []) crn))"
    using merge_top_general[OF dt, of common "[]"] by simp
  have b: "\<forall>k. map_of (fst (merge_top (common, []) crn)) k =
            (case map_of crn k of Some v \<Rightarrow> Some v | None \<Rightarrow> map_of common k)"
    unfolding m by (simp add: map_of_fold_set[OF dt] map_add_def)
  have c: "snd (merge_top (common, []) crn) =
        concat (map (\<lambda>(k, v). case map_of common k of
                                 Some old \<Rightarrow> [Overwriting k v old]
                               | None \<Rightarrow> []) crn)"
    unfolding m by simp
  have name: "top_corner_file lib corner ccsnoise =
      Inr (''timing/'' @ lib @ ''__'' @ corner @ ''_ccsnoise.lib.json'')"
    by (simp add: top_corner_file_def assert_singular_def TimingType_singular_def
        TimingType_types_def TimingType_defs bind_def TimingType_file_def)
  have e: "load_top_data fs library_dir lib corner ccsnoise ccsnoise =
            Inr (JDict (fst (merge_top (common, []) crn)),
                 [path_join (path_join library_dir ''timing'') (lib @ ''__common.lib.json''),
                  path_join library_dir (''timing/'' @ lib @ ''__'' @ corner @ ''_ccsnoise.lib.json'')],
                 snd (merge_top (common, []) crn))"
    if "fs (path_join (path_join library_dir ''timing'') (lib @ ''__common.lib.json''))
          = Some (JDict common)"
      "fs (path_join library_dir (''timing/'' @ lib @ ''__'' @ corner @ ''_ccsnoise.lib.json''))
          = Some (JDict crn)"
    using that
    by (simp add: load_top_data_def Let_def a name bind_Inr strip_unless_ccsnoise_def
        split: prod.split)
  from a b c e show ?thesis by blast
qed

theorem merge_corner_over_common_witness:
  "distinct (dict_keys [(''technology'', JStr ''cmos''), (''date'', JStr ''old'')])
   \<and> distinct (dict_keys [(''date'', JStr ''new''), (''comment'', JStr ''c'')])
   \<and> merge_top ([(''technology'', JStr ''cmos''), (''date'', JStr ''old'')], [])
        [(''date'', JStr ''new''), (''comment'', JStr ''c'')] =
       ([(''technology'', JStr ''cmos''), (''date'', JStr ''new''), (''comment'', JStr ''c'')],
        [Overwriting ''date'' (JStr ''new'') (JStr ''old'')])
   \<and> load_top_data
        (\<lambda>p. if p = ''lib/timing/sky__common.lib.json''
                then Some (JDict [(''technology'', JStr ''cmos''), (''date'', JStr ''old'')])
              else if p = ''lib/timing/sky__ff_ccsnoise.lib.json''
                then Some (JDict [(''date'', JStr ''new''), (''comment'', JStr ''c'')])
              else None)
        ''lib'' ''sky'' ''ff'' ccsnoise ccsnoise =
       Inr (JDict [(''technology'', JStr ''cmos''), (''date'', JStr ''new''),
                   (''comment'', JStr ''c'')],
            [''lib/timing/sky__common.lib.json'', ''lib/timing/sky__ff_ccsnoise.lib.json''],
            [Overwriting ''date'' (JStr ''new'') (JStr ''old'')])"
proof -
  let ?common = "[(''technology'', JStr ''cmos''), (''date'', JStr ''old'')]"
  let ?crn = "[(''date'', JStr ''new''), (''comment'', JStr ''c'')]"
  let ?fs = "\<lambda>p. if p = ''lib/timing/sky__common.lib.json'' then Some (JDict ?common)
              else if p = ''lib/timing/sky__ff_ccsnoise.lib.json'' then Some (JDict ?crn)
              else None"
  have d: "distinct (dict_keys ?common) \<and> distinct (dict_keys ?crn)"
    by (simp add: dict_keys_def)
  have m: "merge_top (?common, []) ?crn =
       ([(''technology'', JStr ''cmos''), (''date'', JStr ''new''), (''comment'', JStr ''c'')],
        [Overwriting ''date'' (JStr ''new'') (JStr ''old'')])"
    by simp
  have p1: "path_join (path_join ''lib'' ''timing'') (''sky'' @ ''__common.lib.json'') =
      ''lib/timing/sky__common.lib.json''"
    by (simp add: path_join_def startswith_def endswith_def)
  have p2: "path_join ''lib'' (''timing/'' @ ''sky'' @ ''__'' @ ''ff'' @ ''_ccsnoise.lib.json'') =
      ''lib/timing/sky__ff_ccsnoise.lib.json''"
    by (simp add: path_join_def startswith_def endswith_def)
  have f1: "?fs (path_join (path_join ''lib'' ''timing'') (''sky'' @ ''__common.lib.json'')) =
      Some (JDict ?common)"
    unfolding p1 by simp
  have f2: "?fs (path_join ''lib'' (''timing/'' @ ''sky'' @ ''__'' @ ''ff'' @ ''_ccsnoise.lib.json'')) =
      Some (JDict ?crn)"
    unfolding p2 by simp
  from merge_corner_over_common[OF d, of ?fs "''lib''" "''sky''" "''ff''"] f1 f2
  have "load_top_data ?fs ''lib'' ''sky'' ''ff'' ccsnoise ccsnoise =
            Inr (JDict (fst (merge_top (?common, []) ?crn)),
                 [path_join (path_join ''lib'' ''timing'') (''sky'' @ ''__common.lib.json''),
                  path_join ''lib'' (''timing/'' @ ''sky'' @ ''__'' @ ''ff'' @ ''_ccsnoise.lib.json'')],
                 snd (merge_top (?common, []) ?crn))"
    by blast
  then have l: "load_top_data ?fs ''lib'' ''sky'' ''ff'' ccsnoise ccsnoise =
       Inr (JDict [(''technology'', JStr ''cmos''), (''date'', JStr ''new''),
                   (''comment'', JStr ''c'')],
            [''lib/timing/sky__common.lib.json'', ''lib/timing/sky__ff_ccsnoise.lib.json''],
            [Overwriting ''date'' (JStr ''new'') (JStr ''old'')])"
    unfolding m p1 p2 by simp
  from d m l show ?thesis by blast
qed

section \<open>Properties of the driver's choice and of what generate loads\<close>

lemma bind_eq_Inr: "bind m f = Inr r \<Longrightarrow> \<exists>x. m = Inr x \<and> f x = Inr r"
  by (cases m) (simp_all add: bind_def)

lemma top_name_ccsnoise:
  "top_corner_file lib corner ccsnoise =
     Inr (''timing/'' @ lib @ ''__'' @ corner @ ''_ccsnoise.lib.json'')"
  by (simp add: top_corner_file_def assert_singular_def TimingType_singular_def
      TimingType_types_def TimingType_defs bind_def TimingType_file_def)

lemma cell_name_ccsnoise:
  "cell_corner_file parse_size lib c corner ccsnoise =
     Inr (''cells/''
          @ (case parse_size c of Some suffix \<Rightarrow> drop_last (length suffix) c | None \<Rightarrow> c)
          @ ''/'' @ lib @ ''__'' @ c @ ''__'' @ corner @ ''_ccsnoise.lib.json'')"
  by (simp add: cell_corner_file_def assert_singular_def TimingType_singular_def
      TimingType_types_def TimingType_defs bind_def TimingType_file_def)

lemma basic_not_ccsnoise: "basic \<noteq> ccsnoise"
  by (simp add: basic_def ccsnoise_def)

text \<open>Each cell written adds its own file of the input variant to the paths read.\<close>

lemma write_cell_reads:
  "write_cell fs parse_size ser library_dir lib corner otype ccsnoise c (body, rd) = Inr (body', rd')
   \<Longrightarrow> rd' = rd @ [path_join library_dir
          (''cells/''
           @ (case parse_size c of Some suffix \<Rightarrow> drop_last (length suffix) c | None \<Rightarrow> c)
           @ ''/'' @ lib @ ''__'' @ c @ ''__'' @ corner @ ''_ccsnoise.lib.json'')]"
  unfolding write_cell_def load_cell_data_def cell_name_ccsnoise bind_Inr Let_def
  by (auto simp add: bind_def split: option.splits sum.splits prod.splits)

lemma fold_write_cell_reads:
  "fold_err (write_cell fs parse_size ser library_dir lib corner otype ccsnoise) cells (body, rd)
     = Inr (body', rd')
   \<Longrightarrow> rd' = rd @ map (\<lambda>c. path_join library_dir
          (''cells/''
           @ (case parse_size c of Some suffix \<Rightarrow> drop_last (length suffix) c | None \<Rightarrow> c)
           @ ''/'' @ lib @ ''__'' @ c @ ''__'' @ corner @ ''_ccsnoise.lib.json'')) cells"
proof (induction cells arbitrary: body rd)
  case Nil
  then show ?case by simp
next
  case (Cons c cells)
  from Cons.prems obtain st where
    st: "write_cell fs parse_size ser library_dir lib corner otype ccsnoise c (body, rd) = Inr st"
    and rest: "fold_err (write_cell fs parse_size ser library_dir lib corner otype ccsnoise) cells st
                 = Inr (body', rd')"
    using bind_eq_Inr by fastforce
  obtain t1 r1 where s1: "st = (t1, r1)" by (cases st)
  from write_cell_reads[OF st[unfolded s1]] Cons.IH[OF rest[unfolded s1]]
  show ?case by simp
qed

lemma load_top_reads:
  "load_top_data fs library_dir lib corner otype ccsnoise = Inr (data, rd, out)
   \<Longrightarrow> rd = [path_join (path_join library_dir ''timing'') (lib @ ''__common.lib.json''),
             path_join library_dir (''timing/'' @ lib @ ''__'' @ corner @ ''_ccsnoise.lib.json'')]"
  unfolding load_top_data_def top_name_ccsnoise Let_def
  by (auto simp add: bind_def split: option.splits sum.splits prod.splits json.splits)

lemma generate_reads:
  assumes "generate fs parse_size ser library_dir lib corner otype ccsnoise cells = Inr r"
  shows "reads r =
     [path_join (path_join library_dir ''timing'') (lib @ ''__common.lib.json''),
      path_join library_dir (''timing/'' @ lib @ ''__'' @ corner @ ''_ccsnoise.lib.json'')]
     @ map (\<lambda>c. path_join library_dir
          (''cells/''
           @ (case parse_size c of Some suffix \<Rightarrow> drop_last (length suffix) c | None \<Rightarrow> c)
           @ ''/'' @ lib @ ''__'' @ c @ ''__'' @ corner @ ''_ccsnoise.lib.json'')) cells"
proof -
  from assms obtain fname where
    g1: "bind (load_top_data fs library_dir lib corner otype ccsnoise)
         (\<lambda>(common_data, rd, out).
       bind (ser ''library'' (lib @ ''__'' @ corner) common_data []) (\<lambda>lns.
         if lns = [] then Inl IndexError
         else if last lns \<noteq> ''}'' then Inl AssertionError
         else
           bind (fold_err (write_cell fs parse_size ser library_dir lib corner otype ccsnoise)
                   cells (top_write [] (butlast lns), rd)) (\<lambda>(body, rd').
             Inr \<lparr>out_path = path_join library_dir (str_replace ''.lib.json'' ''.lib'' fname),
                  out_text = top_write (top_write body ['''']) [''}''],
                  reads = rd',
                  console = out\<rparr>))) = Inr r"
    unfolding generate_def Let_def using bind_eq_Inr by fastforce
  from bind_eq_Inr[OF g1] obtain data rd out where
    lt: "load_top_data fs library_dir lib corner otype ccsnoise = Inr (data, rd, out)"
    and g2: "bind (ser ''library'' (lib @ ''__'' @ corner) data []) (\<lambda>lns.
         if lns = [] then Inl IndexError
         else if last lns \<noteq> ''}'' then Inl AssertionError
         else
           bind (fold_err (write_cell fs parse_size ser library_dir lib corner otype ccsnoise)
                   cells (top_write [] (butlast lns), rd)) (\<lambda>(body, rd').
             Inr \<lparr>out_path = path_join library_dir (str_replace ''.lib.json'' ''.lib'' fname),
                  out_text = top_write (top_write body ['''']) [''}''],
                  reads = rd',
                  console = out\<rparr>)) = Inr r"
    by fastforce
  from bind_eq_Inr[OF g2] obtain lns where
    g3: "bind (fold_err (write_cell fs parse_size ser library_dir lib corner otype ccsnoise)
                   cells (top_write [] (butlast lns), rd)) (\<lambda>(body, rd').
             Inr \<lparr>out_path = path_join library_dir (str_replace ''.lib.json'' ''.lib'' fname),
                  out_text = top_write (top_write body ['''']) [''}''],
                  reads = rd',
                  console = out\<rparr>) = Inr r"
    by (auto split: if_splits)
  from bind_eq_Inr[OF g3] obtain body rd' where
    fw: "fold_err (write_cell fs parse_size ser library_dir lib corner otype ccsnoise)
                   cells (top_write [] (butlast lns), rd) = Inr (body, rd')"
    and r: "r = \<lparr>out_path = path_join library_dir (str_replace ''.lib.json'' ''.lib'' fname),
                  out_text = top_write (top_write body ['''']) [''}''],
                  reads = rd',
                  console = out\<rparr>"
    by fastforce
  from load_top_reads[OF lt] fold_write_cell_reads[OF fw] r show ?thesis by simp
qed

text \<open>
  A run of \<^verbatim>\<open>generate\<close> that succeeds, from the \<^verbatim>\<open>_ccsnoise\<close> records: every record goes
  through the guard of the output variant, and what the guard returns is what the serializer
  is given.
\<close>

lemma top_name_basic:
  "top_corner_file lib corner basic = Inr (''timing/'' @ lib @ ''__'' @ corner @ ''.lib.json'')"
  by (simp add: top_corner_file_def assert_singular_def TimingType_singular_def
      TimingType_types_def TimingType_defs bind_def TimingType_file_def)

lemma write_cells_ok:
  assumes "\<forall>c\<in>set cells.
      fs (path_join library_dir
            (''cells/''
             @ (case parse_size c of Some suffix \<Rightarrow> drop_last (length suffix) c | None \<Rightarrow> c)
             @ ''/'' @ lib @ ''__'' @ c @ ''__'' @ corner @ ''_ccsnoise.lib.json''))
        = Some (cell_data c)
      \<and> strip_unless_ccsnoise otype (cell_data c) c = Inr (stripped c)
      \<and> ser ''cell'' (lib @ ''__'' @ c) (stripped c) [c] = Inr (cell_lines c)"
  shows "fold_err (write_cell fs parse_size ser library_dir lib corner otype ccsnoise) cells
           (body, rd) =
         Inr (foldl (\<lambda>b c. top_write (top_write b ['''']) (cell_lines c)) body cells,
              rd @ map (\<lambda>c. path_join library_dir
                (''cells/''
                 @ (case parse_size c of Some suffix \<Rightarrow> drop_last (length suffix) c | None \<Rightarrow> c)
                 @ ''/'' @ lib @ ''__'' @ c @ ''__'' @ corner @ ''_ccsnoise.lib.json'')) cells)"
  using assms
proof (induction cells arbitrary: body rd)
  case Nil
  show ?case by simp
next
  case (Cons c cells)
  from Cons.prems have
    f: "fs (path_join library_dir
            (''cells/''
             @ (case parse_size c of Some suffix \<Rightarrow> drop_last (length suffix) c | None \<Rightarrow> c)
             @ ''/'' @ lib @ ''__'' @ c @ ''__'' @ corner @ ''_ccsnoise.lib.json''))
        = Some (cell_data c)"
    and s: "strip_unless_ccsnoise otype (cell_data c) c = Inr (stripped c)"
    and l: "ser ''cell'' (lib @ ''__'' @ c) (stripped c) [c] = Inr (cell_lines c)"
    by simp_all
  have w: "write_cell fs parse_size ser library_dir lib corner otype ccsnoise c (body, rd) =
      Inr (top_write (top_write body ['''']) (cell_lines c),
           rd @ [path_join library_dir
            (''cells/''
             @ (case parse_size c of Some suffix \<Rightarrow> drop_last (length suffix) c | None \<Rightarrow> c)
             @ ''/'' @ lib @ ''__'' @ c @ ''__'' @ corner @ ''_ccsnoise.lib.json'')])"
    by (simp only: write_cell_def load_cell_data_def cell_name_ccsnoise bind_Inr Let_def f
        option.case s l prod.case)
  from Cons.prems have rest: "\<forall>c\<in>set cells.
      fs (path_join library_dir
            (''cells/''
             @ (case parse_size c of Some suffix \<Rightarrow> drop_last (length suffix) c | None \<Rightarrow> c)
             @ ''/'' @ lib @ ''__'' @ c @ ''__'' @ corner @ ''_ccsnoise.lib.json''))
        = Some (cell_data c)
      \<and> strip_unless_ccsnoise otype (cell_data c) c = Inr (stripped c)
      \<and> ser ''cell'' (lib @ ''__'' @ c) (stripped c) [c] = Inr (cell_lines c)"
    by simp
  show ?case
    by (simp only: fold_err.simps w bind_Inr Cons.IH[OF rest] foldl_Cons list.map append_assoc
        append_Cons append_Nil)
qed

lemma load_top_ok:
  assumes "distinct (dict_keys common)"
    "fs (path_join (path_join library_dir ''timing'') (lib @ ''__common.lib.json''))
       = Some (JDict common)"
    "fs (path_join library_dir (''timing/'' @ lib @ ''__'' @ corner @ ''_ccsnoise.lib.json''))
       = Some (JDict crn)"
    "strip_unless_ccsnoise otype (JDict (fst (merge_top (common, []) crn))) ''library''
       = Inr top_data"
  shows "load_top_data fs library_dir lib corner otype ccsnoise =
     Inr (top_data,
          [path_join (path_join library_dir ''timing'') (lib @ ''__common.lib.json''),
           path_join library_dir (''timing/'' @ lib @ ''__'' @ corner @ ''_ccsnoise.lib.json'')],
          snd (merge_top (common, []) crn))"
proof -
  have lc: "load_common [] common = Inr common"
    using load_common_append[of "[]" common] assms(1) by simp
  show ?thesis
    by (simp only: load_top_data_def Let_def assms(2) option.case json.case lc
        top_name_ccsnoise bind_Inr assms(3) assms(4) prod.case_eq_if)
qed

lemma generate_ok:
  assumes name: "top_corner_file lib corner otype = Inr oname"
    and top: "distinct (dict_keys common)"
      "fs (path_join (path_join library_dir ''timing'') (lib @ ''__common.lib.json''))
         = Some (JDict common)"
      "fs (path_join library_dir (''timing/'' @ lib @ ''__'' @ corner @ ''_ccsnoise.lib.json''))
         = Some (JDict crn)"
      "strip_unless_ccsnoise otype (JDict (fst (merge_top (common, []) crn))) ''library''
         = Inr top_data"
    and lns: "ser ''library'' (lib @ ''__'' @ corner) top_data [] = Inr lns"
      "lns \<noteq> []" "last lns = ''}''"
    and cells: "\<forall>c\<in>set cells.
      fs (path_join library_dir
            (''cells/''
             @ (case parse_size c of Some suffix \<Rightarrow> drop_last (length suffix) c | None \<Rightarrow> c)
             @ ''/'' @ lib @ ''__'' @ c @ ''__'' @ corner @ ''_ccsnoise.lib.json''))
        = Some (cell_data c)
      \<and> strip_unless_ccsnoise otype (cell_data c) c = Inr (stripped c)
      \<and> ser ''cell'' (lib @ ''__'' @ c) (stripped c) [c] = Inr (cell_lines c)"
  shows "generate fs parse_size ser library_dir lib corner otype ccsnoise cells =
     Inr \<lparr>out_path = path_join library_dir (str_replace ''.lib.json'' ''.lib'' oname),
          out_text =
            top_write
              (top_write
                 (foldl (\<lambda>b c. top_write (top_write b ['''']) (cell_lines c))
                    (top_write [] (butlast lns)) cells)
                 [''''])
              [''}''],
          reads =
            [path_join (path_join library_dir ''timing'') (lib @ ''__common.lib.json''),
             path_join library_dir (''timing/'' @ lib @ ''__'' @ corner @ ''_ccsnoise.lib.json'')]
            @ map (\<lambda>c. path_join library_dir
                (''cells/''
                 @ (case parse_size c of Some suffix \<Rightarrow> drop_last (length suffix) c | None \<Rightarrow> c)
                 @ ''/'' @ lib @ ''__'' @ c @ ''__'' @ corner @ ''_ccsnoise.lib.json'')) cells,
          console = snd (merge_top (common, []) crn)\<rparr>"
proof -
  have wc: "fold_err (write_cell fs parse_size ser library_dir lib corner otype ccsnoise) cells
           (body, rd) =
         Inr (foldl (\<lambda>b c. top_write (top_write b ['''']) (cell_lines c)) body cells,
              rd @ map (\<lambda>c. path_join library_dir
                (''cells/''
                 @ (case parse_size c of Some suffix \<Rightarrow> drop_last (length suffix) c | None \<Rightarrow> c)
                 @ ''/'' @ lib @ ''__'' @ c @ ''__'' @ corner @ ''_ccsnoise.lib.json'')) cells)"
    for body rd
    using cells by (rule write_cells_ok)
  show ?thesis
    using lns(2,3)
    by (simp only: generate_def name bind_Inr Let_def load_top_ok[OF top] prod.case lns(1)
        if_False simp_thms wc)
qed

text \<open>
  C1. For a corner whose capability contains basic and ccsnoise.
  With the output variant basic the driver calls \<^verbatim>\<open>generate\<close> with the input variant ccsnoise;
  every run of it that succeeds has read the common record, the corner's \<^verbatim>\<open>_ccsnoise\<close> record
  and each cell's \<^verbatim>\<open>_ccsnoise\<close> record; and when the records load, \<^verbatim>\<open>remove_ccsnoise\<close> returns
  on the merged record and on each cell's record and the serializer returns on what
  \<^verbatim>\<open>remove_ccsnoise\<close> returned, the text written is made of the serializer's lines for the
  stripped records.
  With the output variant ccsnoise the driver calls \<^verbatim>\<open>generate\<close> with the input variant
  ccsnoise, and the text written is made of the serializer's lines for the records as loaded.
  With the output variant leakage the driver calls \<^verbatim>\<open>generate\<close> with the input variant leakage
  when the capability contains leakage, and refuses the corner when it does not.
\<close>

theorem driver_selects_input_variant:
  "TimingType_contains basic caps \<and> TimingType_contains ccsnoise caps \<Longrightarrow>
   main_corner fs parse_size ser library_dir lib corner basic (caps, cells) =
       Some (generate fs parse_size ser library_dir lib corner basic ccsnoise cells)
   \<and> (\<forall>r. generate fs parse_size ser library_dir lib corner basic ccsnoise cells = Inr r \<longrightarrow>
         reads r =
           [path_join (path_join library_dir ''timing'') (lib @ ''__common.lib.json''),
            path_join library_dir (''timing/'' @ lib @ ''__'' @ corner @ ''_ccsnoise.lib.json'')]
           @ map (\<lambda>c. path_join library_dir
                (''cells/''
                 @ (case parse_size c of Some suffix \<Rightarrow> drop_last (length suffix) c | None \<Rightarrow> c)
                 @ ''/'' @ lib @ ''__'' @ c @ ''__'' @ corner @ ''_ccsnoise.lib.json'')) cells)
   \<and> (distinct (dict_keys common)
        \<and> fs (path_join (path_join library_dir ''timing'') (lib @ ''__common.lib.json''))
            = Some (JDict common)
        \<and> fs (path_join library_dir (''timing/'' @ lib @ ''__'' @ corner @ ''_ccsnoise.lib.json''))
            = Some (JDict crn)
        \<and> remove_ccsnoise (JDict (fst (merge_top (common, []) crn))) ''library'' = Inr top_data
        \<and> ser ''library'' (lib @ ''__'' @ corner) top_data [] = Inr lns
        \<and> lns \<noteq> [] \<and> last lns = ''}''
        \<and> (\<forall>c\<in>set cells.
              fs (path_join library_dir
                    (''cells/''
                     @ (case parse_size c of Some suffix \<Rightarrow> drop_last (length suffix) c
                        | None \<Rightarrow> c)
                     @ ''/'' @ lib @ ''__'' @ c @ ''__'' @ corner @ ''_ccsnoise.lib.json''))
                = Some (cell_data c)
              \<and> remove_ccsnoise (cell_data c) c = Inr (stripped c)
              \<and> ser ''cell'' (lib @ ''__'' @ c) (stripped c) [c] = Inr (cell_lines c))
      \<longrightarrow> generate fs parse_size ser library_dir lib corner basic ccsnoise cells =
            Inr \<lparr>out_path = path_join library_dir
                    (str_replace ''.lib.json'' ''.lib''
                       (''timing/'' @ lib @ ''__'' @ corner @ ''.lib.json'')),
                 out_text =
                   top_write
                     (top_write
                        (foldl (\<lambda>b c. top_write (top_write b ['''']) (cell_lines c))
                           (top_write [] (butlast lns)) cells)
                        [''''])
                     [''}''],
                 reads =
                   [path_join (path_join library_dir ''timing'') (lib @ ''__common.lib.json''),
                    path_join library_dir
                      (''timing/'' @ lib @ ''__'' @ corner @ ''_ccsnoise.lib.json'')]
                   @ map (\<lambda>c. path_join library_dir
                       (''cells/''
                        @ (case parse_size c of Some suffix \<Rightarrow> drop_last (length suffix) c
                           | None \<Rightarrow> c)
                        @ ''/'' @ lib @ ''__'' @ c @ ''__'' @ corner @ ''_ccsnoise.lib.json''))
                       cells,
                 console = snd (merge_top (common, []) crn)\<rparr>)
   \<and> main_corner fs parse_size ser library_dir lib corner ccsnoise (caps, cells) =
       Some (generate fs parse_size ser library_dir lib corner ccsnoise ccsnoise cells)
   \<and> (distinct (dict_keys common)
        \<and> fs (path_join (path_join library_dir ''timing'') (lib @ ''__common.lib.json''))
            = Some (JDict common)
        \<and> fs (path_join library_dir (''timing/'' @ lib @ ''__'' @ corner @ ''_ccsnoise.lib.json''))
            = Some (JDict crn)
        \<and> ser ''library'' (lib @ ''__'' @ corner) (JDict (fst (merge_top (common, []) crn))) []
            = Inr raw_lns
        \<and> raw_lns \<noteq> [] \<and> last raw_lns = ''}''
        \<and> (\<forall>c\<in>set cells.
              fs (path_join library_dir
                    (''cells/''
                     @ (case parse_size c of Some suffix \<Rightarrow> drop_last (length suffix) c
                        | None \<Rightarrow> c)
                     @ ''/'' @ lib @ ''__'' @ c @ ''__'' @ corner @ ''_ccsnoise.lib.json''))
                = Some (cell_data c)
              \<and> ser ''cell'' (lib @ ''__'' @ c) (cell_data c) [c] = Inr (raw_cell_lines c))
      \<longrightarrow> generate fs parse_size ser library_dir lib corner ccsnoise ccsnoise cells =
            Inr \<lparr>out_path = path_join library_dir
                    (str_replace ''.lib.json'' ''.lib''
                       (''timing/'' @ lib @ ''__'' @ corner @ ''_ccsnoise.lib.json'')),
                 out_text =
                   top_write
                     (top_write
                        (foldl (\<lambda>b c. top_write (top_write b ['''']) (raw_cell_lines c))
                           (top_write [] (butlast raw_lns)) cells)
                        [''''])
                     [''}''],
                 reads =
                   [path_join (path_join library_dir ''timing'') (lib @ ''__common.lib.json''),
                    path_join library_dir
                      (''timing/'' @ lib @ ''__'' @ corner @ ''_ccsnoise.lib.json'')]
                   @ map (\<lambda>c. path_join library_dir
                       (''cells/''
                        @ (case parse_size c of Some suffix \<Rightarrow> drop_last (length suffix) c
                           | None \<Rightarrow> c)
                        @ ''/'' @ lib @ ''__'' @ c @ ''__'' @ corner @ ''_ccsnoise.lib.json''))
                       cells,
                 console = snd (merge_top (common, []) crn)\<rparr>)
   \<and> main_corner fs parse_size ser library_dir lib corner leakage (caps, cells) =
       (if TimingType_contains leakage caps
        then Some (generate fs parse_size ser library_dir lib corner leakage leakage cells)
        else None)"
proof -
  assume caps: "TimingType_contains basic caps \<and> TimingType_contains ccsnoise caps"
  have a: "main_corner fs parse_size ser library_dir lib corner basic (caps, cells) =
       Some (generate fs parse_size ser library_dir lib corner basic ccsnoise cells)"
    using caps by (simp add: main_corner_def input_corner_type_for_def)
  have b: "\<forall>r. generate fs parse_size ser library_dir lib corner basic ccsnoise cells = Inr r \<longrightarrow>
         reads r =
           [path_join (path_join library_dir ''timing'') (lib @ ''__common.lib.json''),
            path_join library_dir (''timing/'' @ lib @ ''__'' @ corner @ ''_ccsnoise.lib.json'')]
           @ map (\<lambda>c. path_join library_dir
                (''cells/''
                 @ (case parse_size c of Some suffix \<Rightarrow> drop_last (length suffix) c | None \<Rightarrow> c)
                 @ ''/'' @ lib @ ''__'' @ c @ ''__'' @ corner @ ''_ccsnoise.lib.json'')) cells"
    using generate_reads by blast
  have sb: "strip_unless_ccsnoise basic d n = remove_ccsnoise d n" for d n
    using basic_not_ccsnoise by (simp add: strip_unless_ccsnoise_def)
  have sc: "strip_unless_ccsnoise ccsnoise d n = Inr d" for d n
    by (simp add: strip_unless_ccsnoise_def)
  have c: "generate fs parse_size ser library_dir lib corner basic ccsnoise cells =
            Inr \<lparr>out_path = path_join library_dir
                    (str_replace ''.lib.json'' ''.lib''
                       (''timing/'' @ lib @ ''__'' @ corner @ ''.lib.json'')),
                 out_text =
                   top_write
                     (top_write
                        (foldl (\<lambda>b c. top_write (top_write b ['''']) (cell_lines c))
                           (top_write [] (butlast lns)) cells)
                        [''''])
                     [''}''],
                 reads =
                   [path_join (path_join library_dir ''timing'') (lib @ ''__common.lib.json''),
                    path_join library_dir
                      (''timing/'' @ lib @ ''__'' @ corner @ ''_ccsnoise.lib.json'')]
                   @ map (\<lambda>c. path_join library_dir
                       (''cells/''
                        @ (case parse_size c of Some suffix \<Rightarrow> drop_last (length suffix) c
                           | None \<Rightarrow> c)
                        @ ''/'' @ lib @ ''__'' @ c @ ''__'' @ corner @ ''_ccsnoise.lib.json''))
                       cells,
                 console = snd (merge_top (common, []) crn)\<rparr>"
    if h: "distinct (dict_keys common)"
      "fs (path_join (path_join library_dir ''timing'') (lib @ ''__common.lib.json''))
            = Some (JDict common)"
      "fs (path_join library_dir (''timing/'' @ lib @ ''__'' @ corner @ ''_ccsnoise.lib.json''))
            = Some (JDict crn)"
      "remove_ccsnoise (JDict (fst (merge_top (common, []) crn))) ''library'' = Inr top_data"
      "ser ''library'' (lib @ ''__'' @ corner) top_data [] = Inr lns"
      "lns \<noteq> []" "last lns = ''}''"
      "\<forall>c\<in>set cells.
              fs (path_join library_dir
                    (''cells/''
                     @ (case parse_size c of Some suffix \<Rightarrow> drop_last (length suffix) c
                        | None \<Rightarrow> c)
                     @ ''/'' @ lib @ ''__'' @ c @ ''__'' @ corner @ ''_ccsnoise.lib.json''))
                = Some (cell_data c)
              \<and> remove_ccsnoise (cell_data c) c = Inr (stripped c)
              \<and> ser ''cell'' (lib @ ''__'' @ c) (stripped c) [c] = Inr (cell_lines c)"
  proof -
    have t: "strip_unless_ccsnoise basic (JDict (fst (merge_top (common, []) crn))) ''library''
        = Inr top_data"
      unfolding sb by (rule h(4))
    have cs: "\<forall>c\<in>set cells.
              fs (path_join library_dir
                    (''cells/''
                     @ (case parse_size c of Some suffix \<Rightarrow> drop_last (length suffix) c
                        | None \<Rightarrow> c)
                     @ ''/'' @ lib @ ''__'' @ c @ ''__'' @ corner @ ''_ccsnoise.lib.json''))
                = Some (cell_data c)
              \<and> strip_unless_ccsnoise basic (cell_data c) c = Inr (stripped c)
              \<and> ser ''cell'' (lib @ ''__'' @ c) (stripped c) [c] = Inr (cell_lines c)"
      unfolding sb by (rule h(8))
    show ?thesis
      by (rule generate_ok[where otype = basic and stripped = stripped
            and cell_data = cell_data and top_data = top_data and common = common
            and crn = crn and lns = lns and cell_lines = cell_lines and fs = fs and ser = ser
            and parse_size = parse_size and library_dir = library_dir and lib = lib
            and corner = corner and cells = cells
            and oname = "''timing/'' @ lib @ ''__'' @ corner @ ''.lib.json''",
            OF top_name_basic h(1) h(2) h(3) t h(5) h(6) h(7) cs])
  qed
  have d: "main_corner fs parse_size ser library_dir lib corner ccsnoise (caps, cells) =
       Some (generate fs parse_size ser library_dir lib corner ccsnoise ccsnoise cells)"
    using caps basic_not_ccsnoise by (auto simp add: main_corner_def input_corner_type_for_def)
  have e: "generate fs parse_size ser library_dir lib corner ccsnoise ccsnoise cells =
            Inr \<lparr>out_path = path_join library_dir
                    (str_replace ''.lib.json'' ''.lib''
                       (''timing/'' @ lib @ ''__'' @ corner @ ''_ccsnoise.lib.json'')),
                 out_text =
                   top_write
                     (top_write
                        (foldl (\<lambda>b c. top_write (top_write b ['''']) (raw_cell_lines c))
                           (top_write [] (butlast raw_lns)) cells)
                        [''''])
                     [''}''],
                 reads =
                   [path_join (path_join library_dir ''timing'') (lib @ ''__common.lib.json''),
                    path_join library_dir
                      (''timing/'' @ lib @ ''__'' @ corner @ ''_ccsnoise.lib.json'')]
                   @ map (\<lambda>c. path_join library_dir
                       (''cells/''
                        @ (case parse_size c of Some suffix \<Rightarrow> drop_last (length suffix) c
                           | None \<Rightarrow> c)
                        @ ''/'' @ lib @ ''__'' @ c @ ''__'' @ corner @ ''_ccsnoise.lib.json''))
                       cells,
                 console = snd (merge_top (common, []) crn)\<rparr>"
    if h: "distinct (dict_keys common)"
      "fs (path_join (path_join library_dir ''timing'') (lib @ ''__common.lib.json''))
            = Some (JDict common)"
      "fs (path_join library_dir (''timing/'' @ lib @ ''__'' @ corner @ ''_ccsnoise.lib.json''))
            = Some (JDict crn)"
      "ser ''library'' (lib @ ''__'' @ corner) (JDict (fst (merge_top (common, []) crn))) []
            = Inr raw_lns"
      "raw_lns \<noteq> []" "last raw_lns = ''}''"
      "\<forall>c\<in>set cells.
              fs (path_join library_dir
                    (''cells/''
                     @ (case parse_size c of Some suffix \<Rightarrow> drop_last (length suffix) c
                        | None \<Rightarrow> c)
                     @ ''/'' @ lib @ ''__'' @ c @ ''__'' @ corner @ ''_ccsnoise.lib.json''))
                = Some (cell_data c)
              \<and> ser ''cell'' (lib @ ''__'' @ c) (cell_data c) [c] = Inr (raw_cell_lines c)"
  proof -
    have t: "strip_unless_ccsnoise ccsnoise (JDict (fst (merge_top (common, []) crn))) ''library''
        = Inr (JDict (fst (merge_top (common, []) crn)))"
      by (rule sc)
    have cs: "\<forall>c\<in>set cells.
              fs (path_join library_dir
                    (''cells/''
                     @ (case parse_size c of Some suffix \<Rightarrow> drop_last (length suffix) c
                        | None \<Rightarrow> c)
                     @ ''/'' @ lib @ ''__'' @ c @ ''__'' @ corner @ ''_ccsnoise.lib.json''))
                = Some (cell_data c)
              \<and> strip_unless_ccsnoise ccsnoise (cell_data c) c = Inr (cell_data c)
              \<and> ser ''cell'' (lib @ ''__'' @ c) (cell_data c) [c] = Inr (raw_cell_lines c)"
      unfolding sc using h(7) by blast
    show ?thesis
      by (rule generate_ok[where otype = ccsnoise and stripped = cell_data
            and cell_data = cell_data and top_data = "JDict (fst (merge_top (common, []) crn))"
            and common = common
            and crn = crn and lns = raw_lns and cell_lines = raw_cell_lines and fs = fs
            and ser = ser
            and parse_size = parse_size and library_dir = library_dir and lib = lib
            and corner = corner and cells = cells
            and oname = "''timing/'' @ lib @ ''__'' @ corner @ ''_ccsnoise.lib.json''",
            OF top_name_ccsnoise h(1) h(2) h(3) t h(4) h(5) h(6) cs])
  qed
  have f: "main_corner fs parse_size ser library_dir lib corner leakage (caps, cells) =
       (if TimingType_contains leakage caps
        then Some (generate fs parse_size ser library_dir lib corner leakage leakage cells)
        else None)"
    by (simp add: main_corner_def input_corner_type_for_def leakage_def basic_def)
  from a b c d e f show ?thesis by blast
qed

theorem driver_selects_input_variant_witness:
  "TimingType_contains basic ccsnoise \<and> TimingType_contains ccsnoise ccsnoise
   \<and> main_corner
        (\<lambda>p. if p = ''lib/timing/sky__common.lib.json''
                then Some (JDict [(''technology'', JStr ''cmos''), (''date'', JStr ''old'')])
              else if p = ''lib/timing/sky__ff_ccsnoise.lib.json''
                then Some (JDict [(''ccsn_a'', JInt 1), (''date'', JStr ''new'')])
              else if p = ''lib/cells/inv/sky__inv_1__ff_ccsnoise.lib.json''
                then Some (JDict
                  [(''area'', JInt 2), (''ccsn_b'', JInt 3),
                   (''pin A'', JDict
                      [(''input_voltage'', JStr ''x''), (''ccsn_first_stage'', JDict []),
                       (''capacitance'', JInt 1),
                       (''timing'', JList [JDict [(''ccsn_last_stage'', JInt 1),
                                                  (''related_pin'', JStr ''B'')]])])])
              else None)
        (\<lambda>c. Some ''_1'')
        (\<lambda>dtype dvalue data ind.
           Inr ((dtype @ '' ('' @ dvalue @ '') {'')
                # (case data of
                     JDict d \<Rightarrow>
                       concat (map (\<lambda>(k, v). k # (case v of
                           JDict pd \<Rightarrow>
                             concat (map (\<lambda>(pk, pv). pk # (case pv of
                                 JList ts \<Rightarrow>
                                   concat (map (\<lambda>t. case t of JDict td \<Rightarrow> map fst td
                                                      | _ \<Rightarrow> []) ts)
                               | _ \<Rightarrow> [])) pd)
                         | _ \<Rightarrow> [])) d)
                   | _ \<Rightarrow> [])
                @ [''}'']))
        ''lib'' ''sky'' ''ff'' basic (ccsnoise, [''inv_1'']) =
       Some (Inr \<lparr>out_path = ''lib/timing/sky__ff.lib'',
                  out_text = concat (map (\<lambda>l. l @ [CHR 0x0A])
                    [''library (sky__ff) {'', ''technology'', ''date'', '''',
                     ''cell (sky__inv_1) {'', ''area'', ''pin A'', ''capacitance'',
                     ''timing'', ''related_pin'', ''}'', '''', ''}'']),
                  reads = [''lib/timing/sky__common.lib.json'',
                           ''lib/timing/sky__ff_ccsnoise.lib.json'',
                           ''lib/cells/inv/sky__inv_1__ff_ccsnoise.lib.json''],
                  console = [Overwriting ''date'' (JStr ''new'') (JStr ''old'')]\<rparr>)
   \<and> main_corner
        (\<lambda>p. if p = ''lib/timing/sky__common.lib.json''
                then Some (JDict [(''technology'', JStr ''cmos''), (''date'', JStr ''old'')])
              else if p = ''lib/timing/sky__ff_ccsnoise.lib.json''
                then Some (JDict [(''ccsn_a'', JInt 1), (''date'', JStr ''new'')])
              else if p = ''lib/cells/inv/sky__inv_1__ff_ccsnoise.lib.json''
                then Some (JDict
                  [(''area'', JInt 2), (''ccsn_b'', JInt 3),
                   (''pin A'', JDict
                      [(''input_voltage'', JStr ''x''), (''ccsn_first_stage'', JDict []),
                       (''capacitance'', JInt 1),
                       (''timing'', JList [JDict [(''ccsn_last_stage'', JInt 1),
                                                  (''related_pin'', JStr ''B'')]])])])
              else None)
        (\<lambda>c. Some ''_1'')
        (\<lambda>dtype dvalue data ind.
           Inr ((dtype @ '' ('' @ dvalue @ '') {'')
                # (case data of
                     JDict d \<Rightarrow>
                       concat (map (\<lambda>(k, v). k # (case v of
                           JDict pd \<Rightarrow>
                             concat (map (\<lambda>(pk, pv). pk # (case pv of
                                 JList ts \<Rightarrow>
                                   concat (map (\<lambda>t. case t of JDict td \<Rightarrow> map fst td
                                                      | _ \<Rightarrow> []) ts)
                               | _ \<Rightarrow> [])) pd)
                         | _ \<Rightarrow> [])) d)
                   | _ \<Rightarrow> [])
                @ [''}'']))
        ''lib'' ''sky'' ''ff'' ccsnoise (ccsnoise, [''inv_1'']) =
       Some (Inr \<lparr>out_path = ''lib/timing/sky__ff_ccsnoise.lib'',
                  out_text = concat (map (\<lambda>l. l @ [CHR 0x0A])
                    [''library (sky__ff) {'', ''technology'', ''date'', ''ccsn_a'', '''',
                     ''cell (sky__inv_1) {'', ''area'', ''ccsn_b'', ''pin A'',
                     ''input_voltage'', ''ccsn_first_stage'', ''capacitance'', ''timing'',
                     ''ccsn_last_stage'', ''related_pin'', ''}'', '''', ''}'']),
                  reads = [''lib/timing/sky__common.lib.json'',
                           ''lib/timing/sky__ff_ccsnoise.lib.json'',
                           ''lib/cells/inv/sky__inv_1__ff_ccsnoise.lib.json''],
                  console = [Overwriting ''date'' (JStr ''new'') (JStr ''old'')]\<rparr>)
   \<and> main_corner
        (\<lambda>p. if p = ''lib/timing/sky__common.lib.json''
                then Some (JDict [(''technology'', JStr ''cmos''), (''date'', JStr ''old'')])
              else if p = ''lib/timing/sky__ff_ccsnoise.lib.json''
                then Some (JDict [(''ccsn_a'', JInt 1), (''date'', JStr ''new'')])
              else if p = ''lib/cells/inv/sky__inv_1__ff_ccsnoise.lib.json''
                then Some (JDict
                  [(''area'', JInt 2), (''ccsn_b'', JInt 3),
                   (''pin A'', JDict
                      [(''input_voltage'', JStr ''x''), (''ccsn_first_stage'', JDict []),
                       (''capacitance'', JInt 1),
                       (''timing'', JList [JDict [(''ccsn_last_stage'', JInt 1),
                                                  (''related_pin'', JStr ''B'')]])])])
              else None)
        (\<lambda>c. Some ''_1'')
        (\<lambda>dtype dvalue data ind.
           Inr ((dtype @ '' ('' @ dvalue @ '') {'')
                # (case data of
                     JDict d \<Rightarrow>
                       concat (map (\<lambda>(k, v). k # (case v of
                           JDict pd \<Rightarrow>
                             concat (map (\<lambda>(pk, pv). pk # (case pv of
                                 JList ts \<Rightarrow>
                                   concat (map (\<lambda>t. case t of JDict td \<Rightarrow> map fst td
                                                      | _ \<Rightarrow> []) ts)
                               | _ \<Rightarrow> [])) pd)
                         | _ \<Rightarrow> [])) d)
                   | _ \<Rightarrow> [])
                @ [''}'']))
        ''lib'' ''sky'' ''ff'' leakage (ccsnoise, [''inv_1'']) = None"
proof -
  let ?fs = "(\<lambda>p. if p = ''lib/timing/sky__common.lib.json''
                then Some (JDict [(''technology'', JStr ''cmos''), (''date'', JStr ''old'')])
              else if p = ''lib/timing/sky__ff_ccsnoise.lib.json''
                then Some (JDict [(''ccsn_a'', JInt 1), (''date'', JStr ''new'')])
              else if p = ''lib/cells/inv/sky__inv_1__ff_ccsnoise.lib.json''
                then Some (JDict
                  [(''area'', JInt 2), (''ccsn_b'', JInt 3),
                   (''pin A'', JDict
                      [(''input_voltage'', JStr ''x''), (''ccsn_first_stage'', JDict []),
                       (''capacitance'', JInt 1),
                       (''timing'', JList [JDict [(''ccsn_last_stage'', JInt 1),
                                                  (''related_pin'', JStr ''B'')]])])])
              else None)"
  let ?ps = "(\<lambda>c. Some ''_1'') :: string \<Rightarrow> string option"
  let ?ser = "(\<lambda>dtype dvalue data ind.
           Inr ((dtype @ '' ('' @ dvalue @ '') {'')
                # (case data of
                     JDict d \<Rightarrow>
                       concat (map (\<lambda>(k, v). k # (case v of
                           JDict pd \<Rightarrow>
                             concat (map (\<lambda>(pk, pv). pk # (case pv of
                                 JList ts \<Rightarrow>
                                   concat (map (\<lambda>t. case t of JDict td \<Rightarrow> map fst td
                                                      | _ \<Rightarrow> []) ts)
                               | _ \<Rightarrow> [])) pd)
                         | _ \<Rightarrow> [])) d)
                   | _ \<Rightarrow> [])
                @ [''}'']))
           :: string \<Rightarrow> string \<Rightarrow> json \<Rightarrow> string list \<Rightarrow> error + string list"
  let ?common = "[(''technology'', JStr ''cmos''), (''date'', JStr ''old'')]"
  let ?crn = "[(''ccsn_a'', JInt 1), (''date'', JStr ''new'')]"
  let ?cell = "[(''area'', JInt 2), (''ccsn_b'', JInt 3),
                   (''pin A'', JDict
                      [(''input_voltage'', JStr ''x''), (''ccsn_first_stage'', JDict []),
                       (''capacitance'', JInt 1),
                       (''timing'', JList [JDict [(''ccsn_last_stage'', JInt 1),
                                                  (''related_pin'', JStr ''B'')]])])]"
  let ?stripped = "[(''area'', JInt 2),
                   (''pin A'', JDict
                      [(''capacitance'', JInt 1),
                       (''timing'', JList [JDict [(''related_pin'', JStr ''B'')]])])]"
  have caps: "TimingType_contains basic ccsnoise \<and> TimingType_contains ccsnoise ccsnoise"
    by (simp add: TimingType_contains_def basic_def ccsnoise_def)
  have lk: "\<not> TimingType_contains leakage ccsnoise"
    by (simp add: TimingType_contains_def basic_def ccsnoise_def leakage_def)
  have m: "merge_top (?common, []) ?crn =
       ([(''technology'', JStr ''cmos''), (''date'', JStr ''new''), (''ccsn_a'', JInt 1)],
        [Overwriting ''date'' (JStr ''new'') (JStr ''old'')])"
    by simp
  have r1: "remove_ccsnoise (JDict [(''technology'', JStr ''cmos''), (''date'', JStr ''new''), (''ccsn_a'', JInt 1)])
        ''library'' = Inr (JDict [(''technology'', JStr ''cmos''), (''date'', JStr ''new'')])"
    by (simp add: remove_ccsnoise_def remove_item_def bind_def startswith_def)
  have r2: "remove_ccsnoise (JDict ?cell) ''inv_1'' = Inr (JDict ?stripped)"
    by (simp add: remove_ccsnoise_def remove_item_def strip_pin_def strip_timing_def
        strip_ccsn_keys_def dict_keys_def dict_del_def bind_def startswith_def Let_def)
  have n1: "str_replace ''.lib.json'' ''.lib'' ''timing/sky__ff.lib.json'' = ''timing/sky__ff.lib''"
    by (simp add: str_replace.simps startswith_def)
  have n2: "str_replace ''.lib.json'' ''.lib'' ''timing/sky__ff_ccsnoise.lib.json'' =
      ''timing/sky__ff_ccsnoise.lib''"
    by (simp add: str_replace.simps startswith_def)
  note inst = driver_selects_input_variant[where caps = ccsnoise and fs = ?fs
      and parse_size = ?ps and ser = ?ser and library_dir = "''lib''" and lib = "''sky''"
      and corner = "''ff''" and cells = "[''inv_1'']" and common = ?common and crn = ?crn
      and top_data = "JDict [(''technology'', JStr ''cmos''), (''date'', JStr ''new'')]"
      and lns = "[''library (sky__ff) {'', ''technology'', ''date'', ''}'']"
      and cell_data = "\<lambda>c. JDict ?cell" and stripped = "\<lambda>c. JDict ?stripped"
      and cell_lines = "\<lambda>c. [''cell (sky__inv_1) {'', ''area'', ''pin A'', ''capacitance'', ''timing'', ''related_pin'', ''}'']"
      and raw_lns = "[''library (sky__ff) {'', ''technology'', ''date'', ''ccsn_a'', ''}'']"
      and raw_cell_lines = "\<lambda>c. [''cell (sky__inv_1) {'', ''area'', ''ccsn_b'', ''pin A'', ''input_voltage'', ''ccsn_first_stage'', ''capacitance'', ''timing'', ''ccsn_last_stage'', ''related_pin'', ''}'']",
      OF caps]
  have gb: "generate ?fs ?ps ?ser ''lib'' ''sky'' ''ff'' basic ccsnoise [''inv_1''] =
       Inr \<lparr>out_path = ''lib/timing/sky__ff.lib'',
                  out_text = concat (map (\<lambda>l. l @ [CHR 0x0A])
                    [''library (sky__ff) {'', ''technology'', ''date'', '''',
                     ''cell (sky__inv_1) {'', ''area'', ''pin A'', ''capacitance'',
                     ''timing'', ''related_pin'', ''}'', '''', ''}'']),
                  reads = [''lib/timing/sky__common.lib.json'',
                           ''lib/timing/sky__ff_ccsnoise.lib.json'',
                           ''lib/cells/inv/sky__inv_1__ff_ccsnoise.lib.json''],
                  console = [Overwriting ''date'' (JStr ''new'') (JStr ''old'')]\<rparr>"
    using inst[THEN conjunct2, THEN conjunct2, THEN conjunct1]
    by (simp add: path_join_def startswith_def endswith_def drop_last_def dict_keys_def
        m r1 r2 n1 top_write_def)
  have gc: "generate ?fs ?ps ?ser ''lib'' ''sky'' ''ff'' ccsnoise ccsnoise [''inv_1''] =
       Inr \<lparr>out_path = ''lib/timing/sky__ff_ccsnoise.lib'',
                  out_text = concat (map (\<lambda>l. l @ [CHR 0x0A])
                    [''library (sky__ff) {'', ''technology'', ''date'', ''ccsn_a'', '''',
                     ''cell (sky__inv_1) {'', ''area'', ''ccsn_b'', ''pin A'',
                     ''input_voltage'', ''ccsn_first_stage'', ''capacitance'', ''timing'',
                     ''ccsn_last_stage'', ''related_pin'', ''}'', '''', ''}'']),
                  reads = [''lib/timing/sky__common.lib.json'',
                           ''lib/timing/sky__ff_ccsnoise.lib.json'',
                           ''lib/cells/inv/sky__inv_1__ff_ccsnoise.lib.json''],
                  console = [Overwriting ''date'' (JStr ''new'') (JStr ''old'')]\<rparr>"
    using inst[THEN conjunct2, THEN conjunct2, THEN conjunct2, THEN conjunct2, THEN conjunct1]
    by (simp add: path_join_def startswith_def endswith_def drop_last_def dict_keys_def
        m n2 top_write_def)
  have mb: "main_corner ?fs ?ps ?ser ''lib'' ''sky'' ''ff'' basic (ccsnoise, [''inv_1'']) =
      Some (generate ?fs ?ps ?ser ''lib'' ''sky'' ''ff'' basic ccsnoise [''inv_1''])"
    using inst by blast
  have mc: "main_corner ?fs ?ps ?ser ''lib'' ''sky'' ''ff'' ccsnoise (ccsnoise, [''inv_1'']) =
      Some (generate ?fs ?ps ?ser ''lib'' ''sky'' ''ff'' ccsnoise ccsnoise [''inv_1''])"
    using inst by blast
  have ml: "main_corner ?fs ?ps ?ser ''lib'' ''sky'' ''ff'' leakage (ccsnoise, [''inv_1'']) = None"
    using inst lk by simp
  from caps mb[unfolded gb] mc[unfolded gc] ml show ?thesis by blast
qed

text \<open>
  The claim has the input variant equal to the output variant whenever the output variant is
  leakage. A corner that has basic and ccsnoise records and no leakage record is refused: the
  driver returns 1 there and \<^verbatim>\<open>generate\<close> is not called.
\<close>

theorem driver_refuses_leakage_counterexample:
  "TimingType_contains basic ccsnoise \<and> TimingType_contains ccsnoise ccsnoise
   \<and> input_corner_type_for leakage ccsnoise = None
   \<and> (\<forall>fs parse_size ser library_dir lib corner cells.
         main_corner fs parse_size ser library_dir lib corner leakage (ccsnoise, cells) = None)"
  by (simp add: main_corner_def input_corner_type_for_def TimingType_contains_def
      basic_def ccsnoise_def leakage_def)

section \<open>Properties of the attribute ordering\<close>

text \<open>A name without an underscore is not an indexed name.\<close>

lemma re_liberty_list_none:
  "CHR ''_'' \<notin> set s \<Longrightarrow> re_liberty_list_from pre s = None"
proof (induction s arbitrary: pre)
  case Nil
  show ?case by simp
next
  case (Cons c cs)
  then have "c \<noteq> CHR ''_''" and ih: "\<And>p. re_liberty_list_from p cs = None" by auto
  then show ?case by (simp add: ih)
qed

text \<open>
  The greedy first group stops at the last underscore that a digit follows: for a base
  without a newline, \<^verbatim>\<open><base>_<digits>\<close> is split into the base and the digits.
\<close>

lemma is_digit_not_underscore: "is_digit c \<Longrightarrow> c \<noteq> CHR ''_''"
  unfolding is_digit_def by auto

lemma re_liberty_list_indexed:
  assumes "CHR 0x0A \<notin> set xs" "ds \<noteq> []" "\<forall>c\<in>set ds. is_digit c"
  shows "re_liberty_list_from pre (xs @ CHR ''_'' # ds) = Some (pre @ xs, ds)"
  using assms(1)
proof (induction xs arbitrary: pre)
  case Nil
  have no: "CHR ''_'' \<notin> set ds"
    using assms(3) is_digit_not_underscore by blast
  have tw: "takeWhile is_digit ds = ds"
    using assms(3) by (simp only: takeWhile_eq_all_conv)
  have hd: "is_digit (hd ds)"
    using assms(2,3) by (cases ds) simp_all
  have "re_liberty_list_from (pre @ [CHR ''_'']) ds = None"
    by (rule re_liberty_list_none[OF no])
  then show ?case
    using assms(2) tw hd by simp
next
  case (Cons x xs)
  then have x: "x \<noteq> CHR 0x0A" and xs: "CHR 0x0A \<notin> set xs" by auto
  have "re_liberty_list_from (pre @ [x]) (xs @ CHR ''_'' # ds) = Some ((pre @ [x]) @ xs, ds)"
    by (rule Cons.IH[OF xs])
  then show ?case using x by simp
qed

lemma str_nat_is_digit: "\<forall>c\<in>set (str_nat n). is_digit c"
  using str_nat_digits[of n] unfolding is_digit_def by blast

lemma digit_val_digit_char: "d < 10 \<Longrightarrow> digit_val (digit_char d) = d"
proof -
  assume "d < 10"
  then have "d = 0 \<or> d = 1 \<or> d = 2 \<or> d = 3 \<or> d = 4 \<or> d = 5 \<or> d = 6 \<or> d = 7 \<or> d = 8 \<or> d = 9"
    by arith
  then show ?thesis
    by (elim disjE) (simp_all add: digit_val_def digit_char_def)
qed

lemma nat_of_digits_snoc:
  "nat_of_digits (s @ [c]) = 10 * nat_of_digits s + digit_val c"
  by (simp add: nat_of_digits_def)

lemma nat_of_digits_str_nat: "nat_of_digits (str_nat n) = n"
proof (induction n rule: str_nat.induct)
  case (1 n)
  show ?case
  proof (cases "n < 10")
    case True
    then show ?thesis
      by (subst str_nat.simps) (simp add: nat_of_digits_def digit_val_digit_char)
  next
    case False
    have "nat_of_digits (str_nat n) =
          nat_of_digits (str_nat (n div 10) @ [digit_char (n mod 10)])"
      using False by (subst str_nat.simps) simp
    also have "\<dots> = 10 * (n div 10) + n mod 10"
      using 1[OF False] by (simp add: nat_of_digits_snoc digit_val_digit_char)
    finally show ?thesis by simp
  qed
qed

lemma bit_length_2_53: "bit_length 9007199254740992 = 54"
  by (simp add: bit_length.simps)

lemma float_of_nat_exact: "n \<le> 2 ^ 53 \<Longrightarrow> float_of_nat n = enat n"
proof (cases "n < 2 ^ 53")
  case True
  then show ?thesis by (simp add: float_of_nat_def)
next
  case False
  assume "n \<le> 2 ^ 53"
  with False have n: "n = 9007199254740992" by simp
  show ?thesis
    unfolding n float_of_nat_def Let_def bit_length_2_53 by simp
qed

lemma order_indexed:
  assumes "CHR '':'' \<notin> set base" "CHR 0x0A \<notin> set base"
  shows "liberty_attribute_order t (base @ ''_'' @ str_nat m) =
         Inr (if \<not> truthy (lookup_attribute_pos t base) then \<infinity>
              else the (lookup_attribute_pos t base),
              float_of_nat m)"
proof -
  have colon: "CHR '':'' \<notin> set (base @ ''_'' @ str_nat m)"
    using assms(1) by (simp add: str_nat_no)
  have "RE_LIBERTY_LIST_match (base @ ''_'' @ str_nat m) = Some (base, str_nat m)"
    unfolding RE_LIBERTY_LIST_match_def
    using re_liberty_list_indexed[OF assms(2) str_nat_nonempty str_nat_is_digit]
    by simp
  then show ?thesis
    using colon
    by (simp add: liberty_attribute_order_def Let_def float_of_digits_def nat_of_digits_str_nat)
qed

text \<open>A name with a colon is refused, whatever follows it.\<close>

lemma order_colon:
  "CHR '':'' \<in> set attr_name \<Longrightarrow> liberty_attribute_order t attr_name = Inl AssertionError"
  by (simp add: liberty_attribute_order_def)

text \<open>
  \<^verbatim>\<open>.\<close> does not match a newline, so the first group ends before the first newline of the
  name: \<^verbatim>\<open>a\nb_1\<close> is not read as an indexed name, and \<^verbatim>\<open>a_1\nb_2\<close> is read as \<^verbatim>\<open>a\<close> with the
  index 1. The index is a run of digits: \<^verbatim>\<open>variable_-1\<close> is not read as an indexed name.
\<close>

lemma newline_and_sign_examples:
  "RE_LIBERTY_LIST_match (''a'' @ [CHR 0x0A] @ ''b_1'') = None"
  "RE_LIBERTY_LIST_match (''a_1'' @ [CHR 0x0A] @ ''b_2'') = Some (''a'', ''1'')"
  "RE_LIBERTY_LIST_match ''variable_-1'' = None"
  by (simp_all add: RE_LIBERTY_LIST_match_def is_digit_def)

lemma float_of_nat_2_53_1: "float_of_nat 9007199254740993 = enat 9007199254740992"
  by (simp add: float_of_nat_def bit_length.simps Let_def)

lemma str_nat_2_53:
  "str_nat 9007199254740992 = ''9007199254740992''"
  "str_nat 9007199254740993 = ''9007199254740993''"
  by (simp_all add: str_nat.simps digit_char_def)

lemma str_nat_2_10: "str_nat 2 = ''2''" "str_nat 10 = ''10''"
  by (simp_all add: str_nat.simps digit_char_def)

text \<open>
  C3. For a base name without a colon and without a newline, and natural numbers \<open>m < n\<close> up
  to \<open>2 ^ 53\<close>, written in decimal as \<^verbatim>\<open>str\<close> writes them: the ordering function gives
  \<^verbatim>\<open><base>_<m>\<close> and \<^verbatim>\<open><base>_<n>\<close> keys with the same primary component (what the lookup of
  the base in the skeleton gives, \<^verbatim>\<open>inf\<close> when it gives \<^verbatim>\<open>None\<close> or \<^verbatim>\<open>0.0\<close>) and the secondary
  components \<open>m\<close> and \<open>n\<close>, so that the first key is strictly below the second.
\<close>

theorem indexed_names_sort_numerically:
  "CHR '':'' \<notin> set base \<and> CHR 0x0A \<notin> set base \<and> m < n \<and> n \<le> 2 ^ 53 \<Longrightarrow>
     liberty_attribute_order t (base @ ''_'' @ str_nat m) =
       Inr (if \<not> truthy (lookup_attribute_pos t base) then \<infinity>
            else the (lookup_attribute_pos t base), enat m)
   \<and> liberty_attribute_order t (base @ ''_'' @ str_nat n) =
       Inr (if \<not> truthy (lookup_attribute_pos t base) then \<infinity>
            else the (lookup_attribute_pos t base), enat n)
   \<and> key_less
       (if \<not> truthy (lookup_attribute_pos t base) then \<infinity>
        else the (lookup_attribute_pos t base), enat m)
       (if \<not> truthy (lookup_attribute_pos t base) then \<infinity>
        else the (lookup_attribute_pos t base), enat n)"
proof -
  assume h: "CHR '':'' \<notin> set base \<and> CHR 0x0A \<notin> set base \<and> m < n \<and> n \<le> 2 ^ 53"
  then have c: "CHR '':'' \<notin> set base" and nl: "CHR 0x0A \<notin> set base"
    and mn: "m < n" and n: "n \<le> 2 ^ 53"
    by simp_all
  from mn n have m: "m \<le> 2 ^ 53" by simp
  have km: "liberty_attribute_order t (base @ ''_'' @ str_nat m) =
       Inr (if \<not> truthy (lookup_attribute_pos t base) then \<infinity>
            else the (lookup_attribute_pos t base), enat m)"
    using order_indexed[OF c nl, of t m] float_of_nat_exact[OF m] by simp
  have kn: "liberty_attribute_order t (base @ ''_'' @ str_nat n) =
       Inr (if \<not> truthy (lookup_attribute_pos t base) then \<infinity>
            else the (lookup_attribute_pos t base), enat n)"
    using order_indexed[OF c nl, of t n] float_of_nat_exact[OF n] by simp
  have lt: "key_less
       (if \<not> truthy (lookup_attribute_pos t base) then \<infinity>
        else the (lookup_attribute_pos t base), enat m)
       (if \<not> truthy (lookup_attribute_pos t base) then \<infinity>
        else the (lookup_attribute_pos t base), enat n)"
    using mn by (simp add: key_less_def)
  from km kn lt show ?thesis by blast
qed

theorem indexed_names_sort_numerically_witness:
  "CHR '':'' \<notin> set ''variable'' \<and> CHR 0x0A \<notin> set ''variable''
   \<and> (2::nat) < 10 \<and> (10::nat) \<le> 2 ^ 53
   \<and> liberty_attribute_order
        (''lu_table_template (name_string) {'' @ [CHR 0x0A]
         @ ''        variable_1 : value_enum ;'') ''variable_2'' = Inr (41, 2)
   \<and> liberty_attribute_order
        (''lu_table_template (name_string) {'' @ [CHR 0x0A]
         @ ''        variable_1 : value_enum ;'') ''variable_10'' = Inr (41, 10)
   \<and> key_less (41, 2) (41, 10)"
proof -
  let ?t = "''lu_table_template (name_string) {'' @ [CHR 0x0A]
         @ ''        variable_1 : value_enum ;''"
  have h: "CHR '':'' \<notin> set ''variable'' \<and> CHR 0x0A \<notin> set ''variable''
           \<and> (2::nat) < 10 \<and> (10::nat) \<le> 2 ^ 53"
    by simp
  have f: "str_find ?t '' variable'' = Some 41"
    by (simp add: str_find_def startswith_def)
  have l: "lookup_attribute_pos ?t ''variable'' = Some 41"
    by (simp add: lookup_attribute_pos_def Let_def endswith_def f[simplified] float_of_nat_def
        numeral_eq_enat)
  have p: "(if \<not> truthy (lookup_attribute_pos ?t ''variable'') then \<infinity>
            else the (lookup_attribute_pos ?t ''variable'')) = 41"
    unfolding l by (simp add: truthy_def)
  have e: "enat 2 = 2" "enat 10 = 10"
    by (simp_all add: numeral_eq_enat)
  from indexed_names_sort_numerically[OF h, of ?t]
  show ?thesis
    unfolding p e using h by (simp add: str_nat_2_10)
qed

text \<open>
  The secondary component is \<^verbatim>\<open>float(n)\<close>, a double: from \<open>2 ^ 53\<close> on, neighbouring integers
  share one. \<^verbatim>\<open>index_9007199254740992\<close> and \<^verbatim>\<open>index_9007199254740993\<close> get the same key,
  whatever the skeleton, and neither sorts before the other.
\<close>

theorem indexed_names_rounding_counterexample:
  "(9007199254740992::nat) < 9007199254740993
   \<and> ''index_9007199254740993'' = ''index'' @ ''_'' @ str_nat 9007199254740993
   \<and> (\<forall>t. liberty_attribute_order t ''index_9007199254740992'' =
          Inr (if \<not> truthy (lookup_attribute_pos t ''index'') then \<infinity>
               else the (lookup_attribute_pos t ''index''), enat 9007199254740992))
   \<and> (\<forall>t. liberty_attribute_order t ''index_9007199254740993'' =
          Inr (if \<not> truthy (lookup_attribute_pos t ''index'') then \<infinity>
               else the (lookup_attribute_pos t ''index''), enat 9007199254740992))
   \<and> (\<forall>k. \<not> key_less (k, enat 9007199254740992) (k, enat 9007199254740992))"
proof -
  have c: "CHR '':'' \<notin> set ''index''" and nl: "CHR 0x0A \<notin> set ''index''"
    by simp_all
  have a: "liberty_attribute_order t ''index_9007199254740992'' =
          Inr (if \<not> truthy (lookup_attribute_pos t ''index'') then \<infinity>
               else the (lookup_attribute_pos t ''index''), enat 9007199254740992)" for t
    using order_indexed[OF c nl, of t 9007199254740992] float_of_nat_exact[of 9007199254740992]
    by (simp add: str_nat_2_53)
  have b: "liberty_attribute_order t ''index_9007199254740993'' =
          Inr (if \<not> truthy (lookup_attribute_pos t ''index'') then \<infinity>
               else the (lookup_attribute_pos t ''index''), enat 9007199254740992)" for t
    using order_indexed[OF c nl, of t 9007199254740993] float_of_nat_2_53_1
    by (simp add: str_nat_2_53)
  have k: "\<not> key_less (k, enat 9007199254740992) (k, enat 9007199254740992)" for k
    by (simp add: key_less_def)
  have s: "''index_9007199254740993'' = ''index'' @ ''_'' @ str_nat 9007199254740993"
    by (simp add: str_nat_2_53)
  from a b k s show ?thesis by simp
qed

end
